theory Spec2Isabelle
  imports Complex_Main
begin

section \<open>Feature conversion of \<open>examples/utils_glue.py\<close>\<close>

text \<open>
  A shallow embedding of \<open>convert_examples_to_features\<close> and \<open>_truncate_seq_pair\<close>.
  Python lists are HOL lists, Python integers are \<open>int\<close> (lengths are \<open>nat\<close>, converted
  where the source mixes them with \<open>max_seq_length\<close>), exceptions are values of the type
  \<open>error\<close> returned on the left of a sum, and the messages passed to \<open>logger.info\<close>
  are collected in a list. Python floats are a type parameter \<open>'w\<close> with the two
  literals \<open>0.0\<close> and \<open>1.0\<close> of the source as \<open>0\<close> and \<open>1\<close>; no arithmetic is done on
  them, and whether a float is finite, a NaN or an infinity is read off by a function
  \<open>classify\<close>. The \<open>assert\<close> statements are modelled as executed.
\<close>

subsection \<open>Data\<close>

datatype error =
    IndexError
  | AssertionError
  | KeyError "string option"
  | ValueError
  | TypeError
  | OverflowError

record InputExample =
  guid :: string
  text_a :: string
  text_b :: "string option"
  label :: "string option"

datatype 'w label_value = IntLabel nat | FloatLabel 'w

record 'w InputFeatures =
  input_ids :: "int list"
  input_mask :: "int list"
  segment_ids :: "int list"
  label_id :: "'w label_value"
  epa_vec :: "'w list"

text \<open>
  The keyword arguments of \<open>convert_examples_to_features\<close>, with \<open>default_config\<close>
  holding the defaults of its signature.
\<close>

record 'e config =
  cls_token_at_end :: bool
  cls_token :: string
  cls_token_segment_id :: int
  sep_token :: string
  sep_token_extra :: bool
  pad_on_left :: bool
  pad_token :: int
  pad_token_segment_id :: int
  sequence_a_segment_id :: int
  sequence_b_segment_id :: int
  mask_padding_with_zero :: bool
  epa_infos :: 'e

definition default_config :: "'e option config" where
  "default_config =
     \<lparr>cls_token_at_end = False,
      cls_token = ''[CLS]'',
      cls_token_segment_id = 1,
      sep_token = ''[SEP]'',
      sep_token_extra = False,
      pad_on_left = False,
      pad_token = 0,
      pad_token_segment_id = 0,
      sequence_a_segment_id = 0,
      sequence_b_segment_id = 1,
      mask_padding_with_zero = True,
      epa_infos = None\<rparr>"

text \<open>
  The tokenizer is not part of the file; the function uses three capabilities of it:
  \<open>tokenizer.tokenize(text, epa_infos)\<close>, which yields the tokens and the auxiliary
  weights, \<open>tokenizer.tokenize(text)\<close>, whose result is used as a list of tokens, and
  \<open>tokenizer.convert_tokens_to_ids(tokens)\<close>.
\<close>

record ('e, 'w) tokenizer =
  tokenize_epa :: "string \<Rightarrow> 'e \<Rightarrow> string list \<times> 'w list"
  tokenize :: "string \<Rightarrow> string list"
  convert_tokens_to_ids :: "string list \<Rightarrow> int list"

text \<open>The arguments of the calls to \<open>logger.info\<close>, one constructor per format string.\<close>

datatype 'w log_record =
    LogWriting nat nat
  | LogExample
  | LogGuid string
  | LogTokens "string list"
  | LogInputIds "int list"
  | LogInputMask "int list"
  | LogSegmentIds "int list"
  | LogLabel "string option" "'w label_value"

subsection \<open>Python list primitives\<close>

text \<open>\<open>xs[:k]\<close>: a negative bound counts from the end.\<close>

definition slice_to :: "int \<Rightarrow> 'a list \<Rightarrow> 'a list" where
  "slice_to k xs =
     (if 0 \<le> k then take (nat k) xs else take (nat (int (length xs) + k)) xs)"

text \<open>\<open>[x] * n\<close>: empty when \<open>n\<close> is not positive.\<close>

definition times :: "'a \<Rightarrow> int \<Rightarrow> 'a list" where
  "times x n = replicate (nat n) x"

subsection \<open>\<open>_truncate_seq_pair\<close>\<close>

text \<open>
  The \<open>while True\<close> loop, one recursive call per iteration. \<open>pop()\<close> removes the last
  element and raises \<open>IndexError\<close> on an empty list; in the first branch
  \<open>tokens_a\<close> is longer than \<open>tokens_b\<close> and so not empty.
\<close>

function truncate_seq_pair :: "'a list \<Rightarrow> 'a list \<Rightarrow> int \<Rightarrow> error + 'a list \<times> 'a list" where
  "truncate_seq_pair tokens_a tokens_b max_length =
     (if int (length tokens_a) + int (length tokens_b) \<le> max_length
        then Inr (tokens_a, tokens_b)
      else if length tokens_a > length tokens_b
        then truncate_seq_pair (butlast tokens_a) tokens_b max_length
      else if tokens_b = []
        then Inl IndexError
      else truncate_seq_pair tokens_a (butlast tokens_b) max_length)"
  by pat_completeness auto
termination
  by (relation "measure (\<lambda>(tokens_a, tokens_b, max_length). length tokens_a + length tokens_b)")
     auto

declare truncate_seq_pair.simps [simp del]

text \<open>
  One iteration of the loop as the specification words it: while the combined length
  exceeds the budget, one token leaves the end of the longer sequence, and on a tie
  the second one.
\<close>

inductive removes_one :: "int \<Rightarrow> 'a list \<times> 'a list \<Rightarrow> 'a list \<times> 'a list \<Rightarrow> bool"
  for max_length :: int where
    from_a: "int (length (tokens_a @ [t])) + int (length tokens_b) > max_length \<Longrightarrow>
             length (tokens_a @ [t]) > length tokens_b \<Longrightarrow>
             removes_one max_length (tokens_a @ [t], tokens_b) (tokens_a, tokens_b)"
  | from_b: "int (length tokens_a) + int (length (tokens_b @ [t])) > max_length \<Longrightarrow>
             length tokens_a \<le> length (tokens_b @ [t]) \<Longrightarrow>
             removes_one max_length (tokens_a, tokens_b @ [t]) (tokens_a, tokens_b)"

subsection \<open>\<open>convert_examples_to_features\<close>\<close>

text \<open>\<open>label_map = {label : i for i, label in enumerate(label_list)}\<close>: a later entry wins.\<close>

definition label_map_of :: "'l list \<Rightarrow> ('l \<rightharpoonup> nat)" where
  "label_map_of label_list =
     fold (\<lambda>(i, label) m. m(label \<mapsto> i)) (enumerate 0 label_list) Map.empty"

text \<open>Tokenizing and truncating: the source's lines from the first \<open>tokenize\<close> to the slices.\<close>

definition truncate_single ::
  "'e config \<Rightarrow> int \<Rightarrow> string list \<Rightarrow> 'w list \<Rightarrow> string list \<times> string list option \<times> 'w list" where
  "truncate_single cfg max_seq_length tokens_a epa =
     (let special_tokens_count = (if sep_token_extra cfg then 3 else 2) in
      if int (length tokens_a) > max_seq_length - special_tokens_count
      then (slice_to (max_seq_length - special_tokens_count) tokens_a, None,
            slice_to (max_seq_length - special_tokens_count) epa)
      else (tokens_a, None, epa))"

definition truncate_tokens ::
  "'e config \<Rightarrow> ('e, 'w) tokenizer \<Rightarrow> int \<Rightarrow> InputExample \<Rightarrow>
   error + string list \<times> string list option \<times> 'w list" where
  "truncate_tokens cfg tokenizer max_seq_length example =
     (case tokenize_epa tokenizer (text_a example) (epa_infos cfg) of (tokens_a, epa) \<Rightarrow>
        (case text_b example of
           None \<Rightarrow> Inr (truncate_single cfg max_seq_length tokens_a epa)
         | Some b \<Rightarrow>
             if b = [] then Inr (truncate_single cfg max_seq_length tokens_a epa)
             else
               (let special_tokens_count = (if sep_token_extra cfg then 4 else 3) in
                case truncate_seq_pair tokens_a (tokenize tokenizer b)
                       (max_seq_length - special_tokens_count) of
                  Inl e \<Rightarrow> Inl e
                | Inr (tokens_a', tokens_b') \<Rightarrow> Inr (tokens_a', Some tokens_b', epa))))"

text \<open>
  Assembling tokens, auxiliary weights and segment ids, up to the class token. The
  result is \<open>(tokens, epa_vec, segment_ids)\<close>.
\<close>

definition assemble ::
  "'e config \<Rightarrow> string list \<Rightarrow> string list option \<Rightarrow> ('w::{zero,one}) list \<Rightarrow>
   string list \<times> 'w list \<times> int list" where
  "assemble cfg tokens_a tokens_b epa =
     (let tokens = tokens_a @ [sep_token cfg];
          epa = epa @ [1];
          tokens = (if sep_token_extra cfg then tokens @ [sep_token cfg] else tokens);
          epa = (if sep_token_extra cfg then epa @ [1] else epa);
          segment_ids = times (sequence_a_segment_id cfg) (int (length tokens));
          (tokens, segment_ids) =
            (case tokens_b of
               None \<Rightarrow> (tokens, segment_ids)
             | Some b \<Rightarrow>
                 if b = [] then (tokens, segment_ids)
                 else (tokens @ b @ [sep_token cfg],
                       segment_ids @ times (sequence_b_segment_id cfg) (int (length b) + 1)))
      in if cls_token_at_end cfg
         then (tokens @ [cls_token cfg], epa @ [1], segment_ids @ [cls_token_segment_id cfg])
         else (cls_token cfg # tokens, 1 # epa, cls_token_segment_id cfg # segment_ids))"

text \<open>
  The attention mask and the padding. The result is
  \<open>(input_ids, input_mask, segment_ids, epa_vec)\<close>.
\<close>

definition padding_length :: "int \<Rightarrow> int list \<Rightarrow> int" where
  "padding_length max_seq_length ids = max_seq_length - int (length ids)"

definition pad ::
  "'e config \<Rightarrow> int \<Rightarrow> int list \<Rightarrow> int list \<Rightarrow> ('w::{zero,one}) list \<Rightarrow>
   int list \<times> int list \<times> int list \<times> 'w list" where
  "pad cfg max_seq_length ids segs epa =
     (let msk = times (if mask_padding_with_zero cfg then 1 else 0) (int (length ids));
          n = padding_length max_seq_length ids
      in if pad_on_left cfg
         then (times (pad_token cfg) n @ ids,
               times (if mask_padding_with_zero cfg then 0 else 1) n @ msk,
               times (pad_token_segment_id cfg) n @ segs,
               times 0 n @ epa)
         else (ids @ times (pad_token cfg) n,
               msk @ times (if mask_padding_with_zero cfg then 0 else 1) n,
               segs @ times (pad_token_segment_id cfg) n,
               epa @ times 0 n))"

text \<open>The four \<open>assert\<close> statements.\<close>

definition lengths_ok :: "int \<Rightarrow> int list \<times> int list \<times> int list \<times> 'w list \<Rightarrow> bool" where
  "lengths_ok max_seq_length p =
     (case p of (ids, msk, segs, epa) \<Rightarrow>
        int (length ids) = max_seq_length \<and> int (length msk) = max_seq_length \<and>
        int (length segs) = max_seq_length \<and> int (length epa) = max_seq_length)"

text \<open>
  Resolving the label. \<open>float_of\<close> stands for Python's built-in \<open>float\<close> on a string
  (\<open>None\<close> where it raises \<open>ValueError\<close>); on \<open>None\<close> it raises \<open>TypeError\<close>.
\<close>

definition resolve_label ::
  "(string \<Rightarrow> 'w option) \<Rightarrow> string \<Rightarrow> (string option \<rightharpoonup> nat) \<Rightarrow> string option \<Rightarrow>
   error + 'w label_value" where
  "resolve_label float_of output_mode label_map lbl =
     (if output_mode = ''classification'' then
        (case label_map lbl of None \<Rightarrow> Inl (KeyError lbl) | Some i \<Rightarrow> Inr (IntLabel i))
      else if output_mode = ''regression'' then
        (case lbl of
           None \<Rightarrow> Inl TypeError
         | Some s \<Rightarrow> (case float_of s of None \<Rightarrow> Inl ValueError | Some x \<Rightarrow> Inr (FloatLabel x)))
      else Inl (KeyError (Some output_mode)))"

text \<open>
  The sequences of one example before and after padding, and the body of the loop
  without its logging: the feature and the assembled tokens (which the log prints).
\<close>

definition assembled ::
  "'e config \<Rightarrow> ('e, 'w::{zero,one}) tokenizer \<Rightarrow> int \<Rightarrow> InputExample \<Rightarrow>
   error + string list \<times> 'w list \<times> int list" where
  "assembled cfg tokenizer max_seq_length example =
     (case truncate_tokens cfg tokenizer max_seq_length example of
        Inl e \<Rightarrow> Inl e
      | Inr (tokens_a, tokens_b, epa) \<Rightarrow> Inr (assemble cfg tokens_a tokens_b epa))"

definition padded ::
  "'e config \<Rightarrow> ('e, 'w::{zero,one}) tokenizer \<Rightarrow> int \<Rightarrow> InputExample \<Rightarrow>
   error + string list \<times> int list \<times> int list \<times> int list \<times> 'w list" where
  "padded cfg tokenizer max_seq_length example =
     (case assembled cfg tokenizer max_seq_length example of
        Inl e \<Rightarrow> Inl e
      | Inr (tokens, epa, segs) \<Rightarrow>
          Inr (tokens, pad cfg max_seq_length (convert_tokens_to_ids tokenizer tokens) segs epa))"

definition convert_example ::
  "'e config \<Rightarrow> ('e, 'w::{zero,one}) tokenizer \<Rightarrow> (string \<Rightarrow> 'w option) \<Rightarrow> string \<Rightarrow>
   (string option \<rightharpoonup> nat) \<Rightarrow> int \<Rightarrow> InputExample \<Rightarrow> error + 'w InputFeatures \<times> string list" where
  "convert_example cfg tokenizer float_of output_mode label_map max_seq_length example =
     (case padded cfg tokenizer max_seq_length example of
        Inl e \<Rightarrow> Inl e
      | Inr (tokens, ids, msk, segs, epa) \<Rightarrow>
          if \<not> lengths_ok max_seq_length (ids, msk, segs, epa) then Inl AssertionError
          else
            (case resolve_label float_of output_mode label_map (label example) of
               Inl e \<Rightarrow> Inl e
             | Inr l \<Rightarrow>
                 Inr (\<lparr>input_ids = ids, input_mask = msk, segment_ids = segs,
                       label_id = l, epa_vec = epa\<rparr>, tokens)))"

text \<open>
  The format \<open>%d\<close> in the message \<open>"label: %s (id = %d)"\<close>: an integer is printed
  as it is, a finite float is cut to an integer, a NaN raises \<open>ValueError\<close> and an
  infinity raises \<open>OverflowError\<close>. The result is the exception raised, if any.
\<close>

datatype float_class = Finite | NaN | Infinite

definition format_d :: "('w \<Rightarrow> float_class) \<Rightarrow> 'w label_value \<Rightarrow> error option" where
  "format_d classify l =
     (case l of
        IntLabel i \<Rightarrow> None
      | FloatLabel x \<Rightarrow>
          (case classify x of
             Finite \<Rightarrow> None
           | NaN \<Rightarrow> Some ValueError
           | Infinite \<Rightarrow> Some OverflowError))"

text \<open>
  The \<open>for\<close> loop over \<open>enumerate(examples)\<close>: \<open>n\<close> is \<open>len(examples)\<close>, \<open>features\<close>
  and \<open>logged\<close> are what has been appended so far. An exception ends the call; the log
  written until then stays. For the first five examples the message with the label is
  formatted after the other messages of the example have been logged, and before the
  feature is appended.
\<close>

fun convert_loop ::
  "'e config \<Rightarrow> ('e, 'w::{zero,one}) tokenizer \<Rightarrow> (string \<Rightarrow> 'w option) \<Rightarrow>
   ('w \<Rightarrow> float_class) \<Rightarrow> string \<Rightarrow> (string option \<rightharpoonup> nat) \<Rightarrow> int \<Rightarrow> nat \<Rightarrow> nat \<Rightarrow>
   InputExample list \<Rightarrow> 'w InputFeatures list \<Rightarrow> 'w log_record list \<Rightarrow>
   'w log_record list \<times> (error + 'w InputFeatures list)" where
  "convert_loop cfg tokenizer float_of classify output_mode label_map max_seq_length n ex_index []
     features logged = (logged, Inr features)"
| "convert_loop cfg tokenizer float_of classify output_mode label_map max_seq_length n ex_index
     (example # rest) features logged =
     (let logged = (if ex_index mod 10000 = 0 then logged @ [LogWriting ex_index n] else logged) in
      case convert_example cfg tokenizer float_of output_mode label_map max_seq_length example of
        Inl e \<Rightarrow> (logged, Inl e)
      | Inr (f, tokens) \<Rightarrow>
          if ex_index < 5 then
            (let logged = logged @ [LogExample, LogGuid (guid example), LogTokens tokens,
                                    LogInputIds (input_ids f), LogInputMask (input_mask f),
                                    LogSegmentIds (segment_ids f)] in
             case format_d classify (label_id f) of
               Some e \<Rightarrow> (logged, Inl e)
             | None \<Rightarrow>
                 convert_loop cfg tokenizer float_of classify output_mode label_map max_seq_length
                   n (Suc ex_index) rest (features @ [f])
                   (logged @ [LogLabel (label example) (label_id f)]))
          else
            convert_loop cfg tokenizer float_of classify output_mode label_map max_seq_length
              n (Suc ex_index) rest (features @ [f]) logged)"

definition convert_examples_to_features ::
  "InputExample list \<Rightarrow> string option list \<Rightarrow> int \<Rightarrow> ('e, 'w::{zero,one}) tokenizer \<Rightarrow>
   string \<Rightarrow> 'e config \<Rightarrow> (string \<Rightarrow> 'w option) \<Rightarrow> ('w \<Rightarrow> float_class) \<Rightarrow>
   'w log_record list \<times> (error + 'w InputFeatures list)" where
  "convert_examples_to_features examples label_list max_seq_length tokenizer output_mode cfg
     float_of classify =
     convert_loop cfg tokenizer float_of classify output_mode (label_map_of label_list)
       max_seq_length (length examples) 0 examples [] []"

text \<open>
  A whitespace tokenizer for the end-to-end scenario: the text is split at blanks, the
  auxiliary weight of a token is \<open>w\<close> of it, and the ids come from \<open>ids\<close>.
\<close>

fun split_blanks :: "string \<Rightarrow> string \<Rightarrow> string list" where
  "split_blanks cur [] = (if cur = [] then [] else [cur])"
| "split_blanks cur (c # cs) =
     (if c = CHR '' '' then (if cur = [] then split_blanks [] cs else cur # split_blanks [] cs)
      else split_blanks (cur @ [c]) cs)"

definition whitespace_tokenizer ::
  "(string \<Rightarrow> 'w) \<Rightarrow> (string list \<Rightarrow> int list) \<Rightarrow> ('e, 'w) tokenizer" where
  "whitespace_tokenizer w ids =
     \<lparr>tokenize_epa = (\<lambda>s e. (split_blanks [] s, map w (split_blanks [] s))),
      tokenize = split_blanks [],
      convert_tokens_to_ids = ids\<rparr>"

text \<open>
  Collaborators for the worked examples: every token weighs \<open>1.0\<close>, the id of a token
  is its length, \<open>float\<close> either rejects every label or accepts just \<open>2.5\<close>, and
  every real number is a finite float.
\<close>

definition unit_weight :: "string \<Rightarrow> real" where
  "unit_weight t = 1"

definition length_ids :: "string list \<Rightarrow> int list" where
  "length_ids ts = map (\<lambda>t. int (length t)) ts"

definition no_float :: "string \<Rightarrow> real option" where
  "no_float s = None"

definition sample_float :: "string \<Rightarrow> real option" where
  "sample_float s = (if s = ''2.5'' then Some (5 / 2) else None)"

definition finite_real :: "real \<Rightarrow> float_class" where
  "finite_real x = Finite"

definition example_tokenizer :: "(unit option, real) tokenizer" where
  "example_tokenizer = whitespace_tokenizer unit_weight length_ids"

text \<open>The default configuration with the padding moved to the left.\<close>

definition left_padded_config :: "unit option config" where
  "left_padded_config = default_config\<lparr>pad_on_left := True\<rparr>"

section \<open>Properties\<close>

subsection \<open>Truncation of a pair\<close>

lemma truncate_total:
  "0 \<le> m \<Longrightarrow> \<exists>a' b'. truncate_seq_pair a b m = Inr (a', b')"
proof (induction a b m rule: truncate_seq_pair.induct)
  case (1 a b m)
  then show ?case
    by (subst truncate_seq_pair.simps) auto
qed

lemma truncate_length:
  "truncate_seq_pair a b m = Inr (a', b') \<Longrightarrow>
   int (length a') + int (length b') = min (int (length a) + int (length b)) m"
proof (induction a b m rule: truncate_seq_pair.induct)
  case (1 a b m)
  show ?case
  proof (cases "int (length a) + int (length b) \<le> m")
    case True
    with "1.prems" show ?thesis by (simp add: truncate_seq_pair.simps)
  next
    case over: False
    show ?thesis
    proof (cases "length a > length b")
      case True
      from over True "1.prems" have "truncate_seq_pair (butlast a) b m = Inr (a', b')"
        by (subst (asm) truncate_seq_pair.simps) simp
      from "1.IH"(1)[OF over True this] over True show ?thesis by simp
    next
      case False
      with over have ne: "b \<noteq> []" using "1.prems"
        by (subst (asm) truncate_seq_pair.simps) auto
      from over False ne "1.prems" have "truncate_seq_pair a (butlast b) m = Inr (a', b')"
        by (subst (asm) truncate_seq_pair.simps) simp
      from "1.IH"(2)[OF over False ne this] over ne show ?thesis by simp
    qed
  qed
qed

lemma truncate_steps:
  "truncate_seq_pair a b m = Inr (a', b') \<Longrightarrow> (removes_one m)\<^sup>*\<^sup>* (a, b) (a', b')"
proof (induction a b m rule: truncate_seq_pair.induct)
  case (1 a b m)
  show ?case
  proof (cases "int (length a) + int (length b) \<le> m")
    case True
    with "1.prems" show ?thesis by (simp add: truncate_seq_pair.simps)
  next
    case over: False
    show ?thesis
    proof (cases "length a > length b")
      case True
      then have ne: "a \<noteq> []" by auto
      from over True "1.prems" have r: "truncate_seq_pair (butlast a) b m = Inr (a', b')"
        by (subst (asm) truncate_seq_pair.simps) simp
      have "removes_one m (butlast a @ [last a], b) (butlast a, b)"
        by (rule removes_one.from_a) (use over True ne in auto)
      then have "removes_one m (a, b) (butlast a, b)" using ne by simp
      then show ?thesis using "1.IH"(1)[OF over True r]
        by (rule converse_rtranclp_into_rtranclp)
    next
      case False
      with over have ne: "b \<noteq> []" using "1.prems"
        by (subst (asm) truncate_seq_pair.simps) auto
      from over False ne "1.prems" have r: "truncate_seq_pair a (butlast b) m = Inr (a', b')"
        by (subst (asm) truncate_seq_pair.simps) simp
      have "removes_one m (a, butlast b @ [last b]) (a, butlast b)"
        by (rule removes_one.from_b) (use over False ne in auto)
      then have "removes_one m (a, b) (a, butlast b)" using ne by simp
      then show ?thesis using "1.IH"(2)[OF over False ne r]
        by (rule converse_rtranclp_into_rtranclp)
    qed
  qed
qed

lemma truncate_longer_a:
  "int (length a) + int (length b) > m \<Longrightarrow> 2 * int (length b) \<le> m \<Longrightarrow>
   truncate_seq_pair a b m = Inr (take (nat m - length b) a, b)"
proof (induction a b m rule: truncate_seq_pair.induct)
  case (1 a b m)
  from "1.prems" have longer: "length a > length b" and over: "\<not> int (length a) + int (length b) \<le> m"
    by auto
  then have ne: "a \<noteq> []" by auto
  have unfold: "truncate_seq_pair a b m = truncate_seq_pair (butlast a) b m"
    using longer over by (subst truncate_seq_pair.simps) simp
  show ?case
  proof (cases "int (length (butlast a)) + int (length b) > m")
    case True
    from "1.IH"(1)[OF over longer True "1.prems"(2)]
    have "truncate_seq_pair (butlast a) b m = Inr (take (nat m - length b) (butlast a), b)" .
    moreover have "take (nat m - length b) (butlast a) = take (nat m - length b) a"
      using True ne by (simp add: butlast_conv_take)
    ultimately show ?thesis using unfold by simp
  next
    case False
    then have "truncate_seq_pair (butlast a) b m = Inr (butlast a, b)"
      by (subst truncate_seq_pair.simps) simp
    moreover have "butlast a = take (nat m - length b) a"
    proof -
      have "int (length a) - 1 + int (length b) = m"
        using False "1.prems"(1) ne by (simp add: Suc_leI)
      then have "nat m - length b = length a - 1" by linarith
      then show ?thesis by (simp add: butlast_conv_take)
    qed
    ultimately show ?thesis using unfold by simp
  qed
qed

lemma truncate_fits:
  "truncate_seq_pair a b m = Inr (a', b') \<Longrightarrow> int (length a') + int (length b') \<le> m"
  by (drule truncate_length) simp

lemma removes_one_unfold:
  "removes_one m s u \<Longrightarrow>
   truncate_seq_pair (fst s) (snd s) m = truncate_seq_pair (fst u) (snd u) m"
proof (induction rule: removes_one.induct)
  case (from_a tokens_a t tokens_b)
  then show ?case
    by (subst truncate_seq_pair.simps) simp
next
  case (from_b tokens_a tokens_b t)
  then show ?case
    by (subst truncate_seq_pair.simps) simp
qed

lemma removes_one_result:
  "(removes_one m)\<^sup>*\<^sup>* s t \<Longrightarrow> int (length (fst t)) + int (length (snd t)) \<le> m \<Longrightarrow>
   truncate_seq_pair (fst s) (snd s) m = Inr t"
proof (induction rule: converse_rtranclp_induct)
  case base
  then show ?case by (subst truncate_seq_pair.simps) simp
next
  case (step y z)
  then show ?case by (simp add: removes_one_unfold)
qed

text \<open>
  Claim C3. \<open>_truncate_seq_pair\<close> returns \<open>(a', b')\<close> exactly when \<open>(a', b')\<close> is reached
  from the two input sequences by removing, while the combined length exceeds
  \<open>max_length\<close>, one token from the end of the longer sequence (from \<open>tokens_b\<close> on a
  tie) and the combined length of \<open>(a', b')\<close> fits; for a budget that is not negative it
  does return; and sequences of lengths 10 and 3 under the budget 8 come back as the
  first 5 tokens of \<open>tokens_a\<close> and \<open>tokens_b\<close> unchanged.
\<close>

theorem truncate_seq_pair_rule:
  "(truncate_seq_pair tokens_a tokens_b max_length = Inr (a', b') \<longleftrightarrow>
      (removes_one max_length)\<^sup>*\<^sup>* (tokens_a, tokens_b) (a', b') \<and>
      int (length a') + int (length b') \<le> max_length) \<and>
   (0 \<le> max_length \<longrightarrow>
      (\<exists>ra rb. truncate_seq_pair tokens_a tokens_b max_length = Inr (ra, rb))) \<and>
   (length tokens_a = 10 \<and> length tokens_b = 3 \<longrightarrow>
      truncate_seq_pair tokens_a tokens_b 8 = Inr (take 5 tokens_a, tokens_b))"
proof (intro conjI impI)
  show "truncate_seq_pair tokens_a tokens_b max_length = Inr (a', b') \<longleftrightarrow>
      (removes_one max_length)\<^sup>*\<^sup>* (tokens_a, tokens_b) (a', b') \<and>
      int (length a') + int (length b') \<le> max_length"
    using truncate_steps truncate_fits removes_one_result [of max_length "(tokens_a, tokens_b)" "(a', b')"]
    by auto
next
  assume "0 \<le> max_length"
  then show "\<exists>ra rb. truncate_seq_pair tokens_a tokens_b max_length = Inr (ra, rb)"
    by (rule truncate_total)
next
  assume "length tokens_a = 10 \<and> length tokens_b = 3"
  then show "truncate_seq_pair tokens_a tokens_b 8 = Inr (take 5 tokens_a, tokens_b)"
    using truncate_longer_a [of 8 tokens_a tokens_b] by simp
qed

theorem truncate_seq_pair_rule_witness:
  "truncate_seq_pair [1, 2, 3, 4, 5, 6, 7, 8, 9, 10 :: nat] [11, 12, 13] 8
     = Inr ([1, 2, 3, 4, 5], [11, 12, 13]) \<and>
   (removes_one 8)\<^sup>*\<^sup>* ([1, 2, 3, 4, 5, 6, 7, 8, 9, 10 :: nat], [11, 12, 13])
     ([1, 2, 3, 4, 5], [11, 12, 13])"
proof -
  let ?a = "[1, 2, 3, 4, 5, 6, 7, 8, 9, 10 :: nat]" and ?b = "[11, 12, 13 :: nat]"
  note rule = truncate_seq_pair_rule [of ?a ?b 8 "[1, 2, 3, 4, 5]" ?b]
  have "length ?a = 10 \<and> length ?b = 3" by simp
  with rule have "truncate_seq_pair ?a ?b 8 = Inr (take 5 ?a, ?b)" by blast
  then have "truncate_seq_pair ?a ?b 8 = Inr ([1, 2, 3, 4, 5], ?b)" by simp
  with rule show ?thesis by blast
qed

text \<open>
  Claim C10. For every pair of lists and every \<open>max_length\<close> that is not negative, the
  loop of \<open>_truncate_seq_pair\<close> ends with a result whose combined length is the minimum
  of the initial combined length and \<open>max_length\<close>; it never pops from an empty list;
  and every iteration entered with a combined length above \<open>max_length\<close> pops from a
  list that is not empty and continues with a combined length smaller by one.
\<close>

theorem truncate_seq_pair_terminates:
  "0 \<le> max_length \<Longrightarrow>
   (\<exists>a' b'. truncate_seq_pair tokens_a tokens_b max_length = Inr (a', b') \<and>
      int (length a') + int (length b') =
        min (int (length tokens_a) + int (length tokens_b)) max_length) \<and>
   truncate_seq_pair tokens_a tokens_b max_length \<noteq> Inl IndexError \<and>
   (max_length < int (length tokens_a) + int (length tokens_b) \<longrightarrow>
      (if length tokens_b < length tokens_a
       then tokens_a \<noteq> [] \<and>
            truncate_seq_pair tokens_a tokens_b max_length =
              truncate_seq_pair (butlast tokens_a) tokens_b max_length \<and>
            length (butlast tokens_a) + length tokens_b + 1 = length tokens_a + length tokens_b
       else tokens_b \<noteq> [] \<and>
            truncate_seq_pair tokens_a tokens_b max_length =
              truncate_seq_pair tokens_a (butlast tokens_b) max_length \<and>
            length tokens_a + length (butlast tokens_b) + 1 = length tokens_a + length tokens_b))"
proof (intro conjI impI)
  assume nonneg: "0 \<le> max_length"
  then obtain a' b' where r: "truncate_seq_pair tokens_a tokens_b max_length = Inr (a', b')"
    using truncate_total by blast
  with truncate_length [OF r]
  show "\<exists>a' b'. truncate_seq_pair tokens_a tokens_b max_length = Inr (a', b') \<and>
      int (length a') + int (length b') =
        min (int (length tokens_a) + int (length tokens_b)) max_length"
    by blast
  from r show "truncate_seq_pair tokens_a tokens_b max_length \<noteq> Inl IndexError" by simp
  assume over: "max_length < int (length tokens_a) + int (length tokens_b)"
  show "if length tokens_b < length tokens_a
       then tokens_a \<noteq> [] \<and>
            truncate_seq_pair tokens_a tokens_b max_length =
              truncate_seq_pair (butlast tokens_a) tokens_b max_length \<and>
            length (butlast tokens_a) + length tokens_b + 1 = length tokens_a + length tokens_b
       else tokens_b \<noteq> [] \<and>
            truncate_seq_pair tokens_a tokens_b max_length =
              truncate_seq_pair tokens_a (butlast tokens_b) max_length \<and>
            length tokens_a + length (butlast tokens_b) + 1 = length tokens_a + length tokens_b"
  proof (cases "length tokens_b < length tokens_a")
    case True
    then have "tokens_a \<noteq> []" by auto
    with True over show ?thesis
      by (subst truncate_seq_pair.simps) simp
  next
    case False
    with over nonneg have "tokens_b \<noteq> []" by auto
    with False over show ?thesis
      by (subst truncate_seq_pair.simps) simp
  qed
qed

theorem truncate_seq_pair_terminates_witness:
  "(0::int) \<le> 3 \<and>
   (\<exists>a' b'. truncate_seq_pair ''abcd'' ''xyz'' 3 = Inr (a', b') \<and>
      int (length a') + int (length b') = 3) \<and>
   truncate_seq_pair ''abcd'' ''xyz'' 3 \<noteq> Inl IndexError"
proof -
  have h: "(0::int) \<le> 3" by simp
  note t = truncate_seq_pair_terminates [OF h, of "''abcd''" "''xyz''"]
  from t have "\<exists>a' b'. truncate_seq_pair ''abcd'' ''xyz'' 3 = Inr (a', b') \<and>
      int (length a') + int (length b') = min (int (length ''abcd'') + int (length ''xyz'')) 3"
    by (rule conjunct1)
  then have "\<exists>a' b'. truncate_seq_pair ''abcd'' ''xyz'' 3 = Inr (a', b') \<and>
      int (length a') + int (length b') = 3"
    by simp
  moreover from t have "truncate_seq_pair ''abcd'' ''xyz'' 3 \<noteq> Inl IndexError"
    by blast
  ultimately show ?thesis using h by blast
qed

subsection \<open>The label map\<close>

lemma fold_enum_notin:
  "l \<notin> set ls \<Longrightarrow> fold (\<lambda>(i, label) m. m(label \<mapsto> i)) (enumerate n ls) m l = m l"
  by (induction ls arbitrary: n m) auto

lemma fold_enum_in:
  "l \<in> set ls \<Longrightarrow>
   \<exists>i<length ls. fold (\<lambda>(i, label) m. m(label \<mapsto> i)) (enumerate n ls) m l = Some (n + i) \<and> ls ! i = l"
proof (induction ls arbitrary: n m)
  case Nil
  then show ?case by simp
next
  case (Cons x xs)
  show ?case
  proof (cases "l \<in> set xs")
    case True
    from Cons.IH[OF True, of "Suc n" "m(x \<mapsto> n)"]
    obtain i where "i < length xs"
      "fold (\<lambda>(i, label) m. m(label \<mapsto> i)) (enumerate (Suc n) xs) (m(x \<mapsto> n)) l = Some (Suc n + i)"
      "xs ! i = l" by (elim exE conjE)
    then show ?thesis by (intro exI[of _ "Suc i"]) (simp del: fun_upd_apply)
  next
    case False
    with Cons.prems have "l = x" by simp
    with False show ?thesis
      by (intro exI[of _ 0]) (simp add: fold_enum_notin fun_upd_same del: fun_upd_apply)
  qed
qed

lemma label_map_of_notin: "l \<notin> set ls \<Longrightarrow> label_map_of ls l = None"
  by (simp add: label_map_of_def fold_enum_notin)

lemma label_map_of_in:
  "l \<in> set ls \<Longrightarrow> \<exists>i<length ls. label_map_of ls l = Some i \<and> ls ! i = l"
  using fold_enum_in[of l ls 0 Map.empty] by (simp add: label_map_of_def)

lemma label_map_of_Some:
  assumes "label_map_of ls l = Some i"
  shows "i < length ls \<and> ls ! i = l"
proof (cases "l \<in> set ls")
  case True
  from label_map_of_in[OF True] obtain j where
    "j < length ls" "label_map_of ls l = Some j" "ls ! j = l" by (elim exE conjE)
  with assms show ?thesis by simp
next
  case False
  from label_map_of_notin[OF False] assms show ?thesis by simp
qed

lemma label_map_of_distinct:
  assumes "distinct ls" and "i < length ls"
  shows "label_map_of ls (ls ! i) = Some i"
proof -
  have "ls ! i \<in> set ls" using assms(2) by simp
  from label_map_of_in[OF this] obtain j where
    j: "j < length ls" "label_map_of ls (ls ! i) = Some j" "ls ! j = ls ! i" by (elim exE conjE)
  from assms j(1,3) have "j = i" by (simp add: nth_eq_iff_index_eq)
  with j(2) show ?thesis by simp
qed

text \<open>
  Claim C7. For a label list of distinct labels, the label map sends the label at
  position \<open>i\<close> to \<open>i\<close>, every index it returns holds the label looked up, its
  domain is the set of the labels, and it is a bijection between the labels and the
  indices below the length of the list.
\<close>

theorem label_map_bijection:
  "distinct label_list \<Longrightarrow>
   (\<forall>i<length label_list. label_map_of label_list (label_list ! i) = Some i) \<and>
   (\<forall>l i. label_map_of label_list l = Some i \<longrightarrow> i < length label_list \<and> label_list ! i = l) \<and>
   dom (label_map_of label_list) = set label_list \<and>
   bij_betw (\<lambda>l. the (label_map_of label_list l)) (set label_list) {..<length label_list}"
proof (intro conjI)
  assume d: "distinct label_list"
  show "\<forall>i<length label_list. label_map_of label_list (label_list ! i) = Some i"
    by (simp add: label_map_of_distinct[OF d])
  show "\<forall>l i. label_map_of label_list l = Some i \<longrightarrow> i < length label_list \<and> label_list ! i = l"
    by (intro allI impI) (rule label_map_of_Some)
  show "dom (label_map_of label_list) = set label_list"
  proof (rule set_eqI)
    fix l
    show "l \<in> dom (label_map_of label_list) \<longleftrightarrow> l \<in> set label_list"
    proof (cases "l \<in> set label_list")
      case True
      from label_map_of_in[OF True] obtain i where "label_map_of label_list l = Some i" by (elim exE conjE)
      with True show ?thesis by (simp add: domI)
    next
      case False
      with label_map_of_notin[OF False] show ?thesis by (simp add: domIff)
    qed
  qed
  show "bij_betw (\<lambda>l. the (label_map_of label_list l)) (set label_list) {..<length label_list}"
  proof (rule bij_betw_byWitness[where f' = "\<lambda>i. label_list ! i"])
    show "\<forall>x\<in>set label_list. label_list ! the (label_map_of label_list x) = x"
    proof
      fix x assume "x \<in> set label_list"
      from label_map_of_in[OF this] obtain i where
        "label_map_of label_list x = Some i" "label_list ! i = x" by (elim exE conjE)
      then show "label_list ! the (label_map_of label_list x) = x" by simp
    qed
    show "\<forall>y\<in>{..<length label_list}. the (label_map_of label_list (label_list ! y)) = y"
      by (simp add: label_map_of_distinct[OF d])
    show "(\<lambda>l. the (label_map_of label_list l)) ` set label_list \<subseteq> {..<length label_list}"
    proof (rule image_subsetI)
      fix l assume "l \<in> set label_list"
      from label_map_of_in[OF this] obtain i where
        "i < length label_list" "label_map_of label_list l = Some i" by (elim exE conjE)
      then show "the (label_map_of label_list l) \<in> {..<length label_list}" by simp
    qed
    show "(\<lambda>i. label_list ! i) ` {..<length label_list} \<subseteq> set label_list"
      by (rule image_subsetI) simp
  qed
qed

theorem label_map_bijection_witness:
  "distinct [Some ''contradiction'', Some ''entailment'', Some ''neutral''] \<and>
   label_map_of [Some ''contradiction'', Some ''entailment'', Some ''neutral''] (Some ''neutral'') = Some 2 \<and>
   label_map_of [Some ''contradiction'', Some ''entailment'', Some ''neutral''] (Some ''entailment'') = Some 1"
proof -
  let ?ls = "[Some ''contradiction'', Some ''entailment'', Some ''neutral'']"
  have d: "distinct ?ls" by simp
  from label_map_bijection[OF d]
  have all: "\<forall>i<length ?ls. label_map_of ?ls (?ls ! i) = Some i" by (rule conjunct1)
  have "label_map_of ?ls (?ls ! 2) = Some 2" and "label_map_of ?ls (?ls ! 1) = Some 1"
    by (rule all[rule_format], simp)+
  then have "label_map_of ?ls (Some ''neutral'') = Some 2"
    and "label_map_of ?ls (Some ''entailment'') = Some 1"
    by simp_all
  with d show ?thesis by simp
qed

subsection \<open>Label resolution\<close>

lemma convert_example_Inr:
  assumes "convert_example cfg tokenizer float_of output_mode label_map max_seq_length example
             = Inr (f, tokens)"
  shows "\<exists>ids msk segs epa l.
           padded cfg tokenizer max_seq_length example = Inr (tokens, ids, msk, segs, epa) \<and>
           lengths_ok max_seq_length (ids, msk, segs, epa) \<and>
           resolve_label float_of output_mode label_map (label example) = Inr l \<and>
           f = \<lparr>input_ids = ids, input_mask = msk, segment_ids = segs, label_id = l,
                epa_vec = epa\<rparr>"
  using assms unfolding convert_example_def
  by (simp split: sum.splits prod.splits if_splits)

lemma convert_example_checked:
  assumes "padded cfg tokenizer max_seq_length example = Inr (tokens, p)"
    and "lengths_ok max_seq_length p"
  shows "convert_example cfg tokenizer float_of output_mode label_map max_seq_length example =
           (case resolve_label float_of output_mode label_map (label example) of
              Inl e \<Rightarrow> Inl e
            | Inr l \<Rightarrow>
                Inr (\<lparr>input_ids = fst p, input_mask = fst (snd p), segment_ids = fst (snd (snd p)),
                      label_id = l, epa_vec = snd (snd (snd p))\<rparr>, tokens))"
  using assms unfolding convert_example_def
  by (cases p) (simp split: sum.splits)

text \<open>
  Claim C8. In classification mode label resolution fails exactly when the label is not
  in the label list, then with \<open>KeyError\<close> of the label, and otherwise returns an index
  at which the list holds the label (the index of the label when the labels are
  distinct). In regression mode it fails exactly when the label is absent or
  \<open>float\<close> rejects it, and otherwise returns the parsed number. For an example whose
  padded sequences pass the length check, the conversion of the example fails exactly
  when label resolution does.
\<close>

theorem label_resolution:
  "((\<exists>e. resolve_label float_of ''classification'' (label_map_of label_list) lbl = Inl e)
      \<longleftrightarrow> lbl \<notin> set label_list) \<and>
   (lbl \<notin> set label_list \<longrightarrow>
      resolve_label float_of ''classification'' (label_map_of label_list) lbl
        = Inl (KeyError lbl)) \<and>
   (lbl \<in> set label_list \<longrightarrow>
      (\<exists>i<length label_list. label_list ! i = lbl \<and>
         resolve_label float_of ''classification'' (label_map_of label_list) lbl
           = Inr (IntLabel i))) \<and>
   (distinct label_list \<longrightarrow>
      (\<forall>i<length label_list.
         resolve_label float_of ''classification'' (label_map_of label_list) (label_list ! i)
           = Inr (IntLabel i))) \<and>
   ((\<exists>e. resolve_label float_of ''regression'' label_map lbl = Inl e)
      \<longleftrightarrow> (\<forall>s. lbl = Some s \<longrightarrow> float_of s = None)) \<and>
   (\<forall>s x. lbl = Some s \<and> float_of s = Some x \<longrightarrow>
      resolve_label float_of ''regression'' label_map lbl = Inr (FloatLabel x)) \<and>
   (padded cfg tokenizer max_seq_length example = Inr (tokens, p) \<and>
    lengths_ok max_seq_length p \<longrightarrow>
      ((\<exists>e. convert_example cfg tokenizer float_of output_mode label_map max_seq_length example
              = Inl e)
         \<longleftrightarrow> (\<exists>e. resolve_label float_of output_mode label_map (label example) = Inl e)))"
proof (intro conjI impI)
  show "(\<exists>e. resolve_label float_of ''classification'' (label_map_of label_list) lbl = Inl e)
      \<longleftrightarrow> lbl \<notin> set label_list"
  proof (cases "lbl \<in> set label_list")
    case True
    from label_map_of_in[OF True] obtain i where "label_map_of label_list lbl = Some i"
      by (elim exE conjE)
    with True show ?thesis by (simp add: resolve_label_def)
  next
    case False
    with label_map_of_notin[OF False] show ?thesis by (simp add: resolve_label_def)
  qed
next
  assume "lbl \<notin> set label_list"
  from label_map_of_notin[OF this]
  show "resolve_label float_of ''classification'' (label_map_of label_list) lbl
        = Inl (KeyError lbl)"
    by (simp add: resolve_label_def)
next
  assume "lbl \<in> set label_list"
  from label_map_of_in[OF this] obtain i where
    i: "i < length label_list" "label_map_of label_list lbl = Some i" "label_list ! i = lbl"
    by (elim exE conjE)
  have "resolve_label float_of ''classification'' (label_map_of label_list) lbl
          = Inr (IntLabel i)"
    using i(2) by (simp add: resolve_label_def)
  with i(1,3) show "\<exists>i<length label_list. label_list ! i = lbl \<and>
         resolve_label float_of ''classification'' (label_map_of label_list) lbl
           = Inr (IntLabel i)"
    by (intro exI[of _ i]) simp
next
  assume d: "distinct label_list"
  show "\<forall>i<length label_list.
         resolve_label float_of ''classification'' (label_map_of label_list) (label_list ! i)
           = Inr (IntLabel i)"
    by (simp add: resolve_label_def label_map_of_distinct[OF d])
next
  show "(\<exists>e. resolve_label float_of ''regression'' label_map lbl = Inl e)
      \<longleftrightarrow> (\<forall>s. lbl = Some s \<longrightarrow> float_of s = None)"
    by (cases lbl; cases "float_of (the lbl)") (simp_all add: resolve_label_def)
next
  show "\<forall>s x. lbl = Some s \<and> float_of s = Some x \<longrightarrow>
      resolve_label float_of ''regression'' label_map lbl = Inr (FloatLabel x)"
    by (simp add: resolve_label_def)
next
  assume "padded cfg tokenizer max_seq_length example = Inr (tokens, p) \<and>
    lengths_ok max_seq_length p"
  then have "convert_example cfg tokenizer float_of output_mode label_map max_seq_length example =
           (case resolve_label float_of output_mode label_map (label example) of
              Inl e \<Rightarrow> Inl e
            | Inr l \<Rightarrow>
                Inr (\<lparr>input_ids = fst p, input_mask = fst (snd p), segment_ids = fst (snd (snd p)),
                      label_id = l, epa_vec = snd (snd (snd p))\<rparr>, tokens))"
    by (simp add: convert_example_checked)
  then show "(\<exists>e. convert_example cfg tokenizer float_of output_mode label_map max_seq_length
                   example = Inl e)
         \<longleftrightarrow> (\<exists>e. resolve_label float_of output_mode label_map (label example) = Inl e)"
    by (simp split: sum.splits)
qed


lemma replicate_numeral:
  "replicate (numeral k) x = x # replicate (pred_numeral k) x"
  by (simp add: numeral_eq_Suc)

lemmas conv_defs = convert_examples_to_features_def convert_example_def padded_def assembled_def
  truncate_tokens_def truncate_single_def assemble_def pad_def padding_length_def lengths_ok_def
  resolve_label_def label_map_of_def times_def slice_to_def whitespace_tokenizer_def
  example_tokenizer_def unit_weight_def length_ids_def no_float_def default_config_def
  sample_float_def left_padded_config_def format_d_def finite_real_def Let_def enumerate_eq_zip replicate_numeral

theorem label_resolution_witness:
  "resolve_label sample_float ''classification'' (label_map_of [Some ''0'', Some ''1''])
     (Some ''1'') = Inr (IntLabel 1) \<and>
   resolve_label sample_float ''classification'' (label_map_of [Some ''0'', Some ''1''])
     (Some ''2'') = Inl (KeyError (Some ''2'')) \<and>
   resolve_label sample_float ''regression'' (label_map_of [None]) (Some ''2.5'')
     = Inr (FloatLabel (5 / 2)) \<and>
   (\<exists>e. resolve_label sample_float ''regression'' (label_map_of [None]) (Some ''high'') = Inl e) \<and>
   (\<exists>e. convert_example default_config example_tokenizer sample_float ''classification''
         (label_map_of [Some ''0'', Some ''1'']) 7
         \<lparr>guid = ''g'', text_a = ''a b c'', text_b = None, label = Some ''2''\<rparr> = Inl e)"
proof -
  let ?ls = "[Some ''0'', Some ''1'']"
  let ?ex = "\<lparr>guid = ''g'', text_a = ''a b c'', text_b = None, label = Some ''2''\<rparr>"
  let ?p = "([5, 1, 1, 1, 5, 0, 0], [1, 1, 1, 1, 1, 0, 0], [1, 0, 0, 0, 0, 0, 0],
             [1, 1, 1, 1, 1, 0, 0 :: real])"
  let ?tokens = "[''[CLS]'', ''a'', ''b'', ''c'', ''[SEP]'']"
  have pd: "padded default_config example_tokenizer 7 ?ex = Inr (?tokens, ?p)"
    by (simp add: conv_defs)
  have ok: "lengths_ok 7 ?p"
    by (simp add: lengths_ok_def)
  note c = label_resolution [where float_of = sample_float and label_list = ?ls
      and lbl = "Some ''2''" and label_map = "label_map_of ?ls" and cfg = default_config
      and tokenizer = example_tokenizer and max_seq_length = 7 and example = ?ex
      and tokens = ?tokens and p = ?p and output_mode = "''classification''"]
  note r = label_resolution [where float_of = sample_float and label_list = "[None]"
      and lbl = "Some ''2.5''" and label_map = "label_map_of [None]" and cfg = default_config
      and tokenizer = example_tokenizer and max_seq_length = 7 and example = ?ex
      and tokens = ?tokens and p = ?p and output_mode = "''regression''"]
  note h = label_resolution [where float_of = sample_float and label_list = "[None]"
      and lbl = "Some ''high''" and label_map = "label_map_of [None]" and cfg = default_config
      and tokenizer = example_tokenizer and max_seq_length = 7 and example = ?ex
      and tokens = ?tokens and p = ?p and output_mode = "''regression''"]
  have d: "distinct ?ls" by simp
  from c d have all: "\<forall>i<length ?ls.
      resolve_label sample_float ''classification'' (label_map_of ?ls) (?ls ! i)
        = Inr (IntLabel i)"
    by simp
  have "resolve_label sample_float ''classification'' (label_map_of ?ls) (?ls ! 1)
        = Inr (IntLabel 1)"
    by (rule all[rule_format]) simp
  then have one: "resolve_label sample_float ''classification'' (label_map_of ?ls) (Some ''1'')
        = Inr (IntLabel 1)"
    by simp
  have "Some ''2'' \<notin> set ?ls" by simp
  with c have two: "resolve_label sample_float ''classification'' (label_map_of ?ls) (Some ''2'')
        = Inl (KeyError (Some ''2''))"
    by simp
  have "sample_float ''2.5'' = Some (5 / 2)" by (simp add: sample_float_def)
  with r have three: "resolve_label sample_float ''regression'' (label_map_of [None])
      (Some ''2.5'') = Inr (FloatLabel (5 / 2))"
    by simp
  have "\<forall>s. Some ''high'' = Some s \<longrightarrow> sample_float s = None"
    by (simp add: sample_float_def)
  with h have four: "\<exists>e. resolve_label sample_float ''regression'' (label_map_of [None])
      (Some ''high'') = Inl e"
    by simp
  from two have "\<exists>e. resolve_label sample_float ''classification'' (label_map_of ?ls)
      (label ?ex) = Inl e"
    by simp
  with c pd ok have five: "\<exists>e. convert_example default_config example_tokenizer sample_float
      ''classification'' (label_map_of ?ls) 7 ?ex = Inl e"
    by simp
  from one two three four five show ?thesis by simp
qed

subsection \<open>Padding\<close>

lemma padded_Inr:
  assumes "padded cfg tokenizer max_seq_length example = Inr (tokens, p)"
  shows "\<exists>epa segs. assembled cfg tokenizer max_seq_length example = Inr (tokens, epa, segs) \<and>
           p = pad cfg max_seq_length (convert_tokens_to_ids tokenizer tokens) segs epa"
  using assms unfolding padded_def
  by (simp split: sum.splits prod.splits)

lemma pad_right:
  "\<not> pad_on_left cfg \<Longrightarrow>
   pad cfg max_seq_length ids segs epa =
     (ids @ replicate (nat (max_seq_length - int (length ids))) (pad_token cfg),
      replicate (length ids) (if mask_padding_with_zero cfg then 1 else 0) @
        replicate (nat (max_seq_length - int (length ids)))
          (if mask_padding_with_zero cfg then 0 else 1),
      segs @ replicate (nat (max_seq_length - int (length ids))) (pad_token_segment_id cfg),
      epa @ replicate (nat (max_seq_length - int (length ids))) 0)"
  by (simp add: pad_def times_def padding_length_def Let_def)

lemma pad_left:
  "pad_on_left cfg \<Longrightarrow>
   pad cfg max_seq_length ids segs epa =
     (replicate (nat (max_seq_length - int (length ids))) (pad_token cfg) @ ids,
      replicate (nat (max_seq_length - int (length ids)))
          (if mask_padding_with_zero cfg then 0 else 1) @
        replicate (length ids) (if mask_padding_with_zero cfg then 1 else 0),
      replicate (nat (max_seq_length - int (length ids))) (pad_token_segment_id cfg) @ segs,
      replicate (nat (max_seq_length - int (length ids))) 0 @ epa)"
  by (simp add: pad_def times_def padding_length_def Let_def)

lemma convert_example_padded:
  assumes "convert_example cfg tokenizer float_of output_mode label_map max_seq_length example
             = Inr (f, tokens)"
  shows "\<exists>epa segs. assembled cfg tokenizer max_seq_length example = Inr (tokens, epa, segs) \<and>
           (input_ids f, input_mask f, segment_ids f, epa_vec f) =
             pad cfg max_seq_length (convert_tokens_to_ids tokenizer tokens) segs epa"
proof -
  from convert_example_Inr[OF assms] obtain ids msk segs' epa' l where
    p: "padded cfg tokenizer max_seq_length example = Inr (tokens, ids, msk, segs', epa')"
    and f: "f = \<lparr>input_ids = ids, input_mask = msk, segment_ids = segs', label_id = l,
                epa_vec = epa'\<rparr>"
    by (elim exE conjE)
  from padded_Inr[OF p] obtain epa segs where
    "assembled cfg tokenizer max_seq_length example = Inr (tokens, epa, segs)"
    "(ids, msk, segs', epa') = pad cfg max_seq_length (convert_tokens_to_ids tokenizer tokens) segs epa"
    by (elim exE conjE)
  with f show ?thesis by (intro exI[of _ epa] exI[of _ segs]) simp
qed

text \<open>
  Claim C5. The padded sequences of an example, as they reach the four \<open>assert\<close>
  statements, are the assembled sequences with \<open>max_seq_length - len(input_ids)\<close>
  padding values (\<open>pad_token\<close>, the inverse mask value, \<open>pad_token_segment_id\<close>,
  \<open>0.0\<close>) appended as one block after them when \<open>pad_on_left\<close> is false, and put as
  one block before them when it is true; and the sequences of every produced feature
  are these padded sequences.
\<close>

theorem padding_contiguous:
  "padded cfg tokenizer max_seq_length example = Inr (tokens, ids', msk', segs', epa') \<Longrightarrow>
   (\<exists>epa segs.
      assembled cfg tokenizer max_seq_length example = Inr (tokens, epa, segs) \<and>
      (let ids = convert_tokens_to_ids tokenizer tokens;
           n = nat (max_seq_length - int (length ids));
           real_mask = (if mask_padding_with_zero cfg then 1 else 0);
           pad_mask = (if mask_padding_with_zero cfg then 0 else 1)
       in (\<not> pad_on_left cfg \<longrightarrow>
             ids' = ids @ replicate n (pad_token cfg) \<and>
             msk' = replicate (length ids) real_mask @ replicate n pad_mask \<and>
             segs' = segs @ replicate n (pad_token_segment_id cfg) \<and>
             epa' = epa @ replicate n 0) \<and>
          (pad_on_left cfg \<longrightarrow>
             ids' = replicate n (pad_token cfg) @ ids \<and>
             msk' = replicate n pad_mask @ replicate (length ids) real_mask \<and>
             segs' = replicate n (pad_token_segment_id cfg) @ segs \<and>
             epa' = replicate n 0 @ epa))) \<and>
   (\<forall>f tokens2.
      convert_example cfg tokenizer float_of output_mode label_map max_seq_length example
        = Inr (f, tokens2) \<longrightarrow>
      tokens2 = tokens \<and> input_ids f = ids' \<and> input_mask f = msk' \<and>
      segment_ids f = segs' \<and> epa_vec f = epa')"
proof (intro conjI allI impI)
  assume pd: "padded cfg tokenizer max_seq_length example = Inr (tokens, ids', msk', segs', epa')"
  from padded_Inr[OF pd] obtain epa segs where
    a: "assembled cfg tokenizer max_seq_length example = Inr (tokens, epa, segs)" and
    p: "(ids', msk', segs', epa') =
          pad cfg max_seq_length (convert_tokens_to_ids tokenizer tokens) segs epa"
    by (elim exE conjE)
  have body: "let ids = convert_tokens_to_ids tokenizer tokens;
           n = nat (max_seq_length - int (length ids));
           real_mask = (if mask_padding_with_zero cfg then 1 else 0);
           pad_mask = (if mask_padding_with_zero cfg then 0 else 1)
       in (\<not> pad_on_left cfg \<longrightarrow>
             ids' = ids @ replicate n (pad_token cfg) \<and>
             msk' = replicate (length ids) real_mask @ replicate n pad_mask \<and>
             segs' = segs @ replicate n (pad_token_segment_id cfg) \<and>
             epa' = epa @ replicate n 0) \<and>
          (pad_on_left cfg \<longrightarrow>
             ids' = replicate n (pad_token cfg) @ ids \<and>
             msk' = replicate n pad_mask @ replicate (length ids) real_mask \<and>
             segs' = replicate n (pad_token_segment_id cfg) @ segs \<and>
             epa' = replicate n 0 @ epa)"
  proof (cases "pad_on_left cfg")
    case True
    from p True show ?thesis by (simp add: Let_def pad_left[OF True])
  next
    case False
    from p False show ?thesis by (simp add: Let_def pad_right[OF False])
  qed
  with a show "\<exists>epa segs.
      assembled cfg tokenizer max_seq_length example = Inr (tokens, epa, segs) \<and>
      (let ids = convert_tokens_to_ids tokenizer tokens;
           n = nat (max_seq_length - int (length ids));
           real_mask = (if mask_padding_with_zero cfg then 1 else 0);
           pad_mask = (if mask_padding_with_zero cfg then 0 else 1)
       in (\<not> pad_on_left cfg \<longrightarrow>
             ids' = ids @ replicate n (pad_token cfg) \<and>
             msk' = replicate (length ids) real_mask @ replicate n pad_mask \<and>
             segs' = segs @ replicate n (pad_token_segment_id cfg) \<and>
             epa' = epa @ replicate n 0) \<and>
          (pad_on_left cfg \<longrightarrow>
             ids' = replicate n (pad_token cfg) @ ids \<and>
             msk' = replicate n pad_mask @ replicate (length ids) real_mask \<and>
             segs' = replicate n (pad_token_segment_id cfg) @ segs \<and>
             epa' = replicate n 0 @ epa))"
    by (intro exI[of _ epa] exI[of _ segs] conjI)
  fix f tokens2
  assume c: "convert_example cfg tokenizer float_of output_mode label_map max_seq_length example
        = Inr (f, tokens2)"
  from convert_example_Inr[OF c] obtain i m sg e l where
    "padded cfg tokenizer max_seq_length example = Inr (tokens2, i, m, sg, e)"
    "f = \<lparr>input_ids = i, input_mask = m, segment_ids = sg, label_id = l, epa_vec = e\<rparr>"
    by (elim exE conjE)
  with pd show "tokens2 = tokens" "input_ids f = ids'" "input_mask f = msk'"
    "segment_ids f = segs'" "epa_vec f = epa'"
    by simp_all
qed

theorem padding_contiguous_witness:
  "padded left_padded_config example_tokenizer 5
     \<lparr>guid = ''g'', text_a = ''a'', text_b = None, label = Some ''1''\<rparr>
   = Inr ([''[CLS]'', ''a'', ''[SEP]''],
          [0, 0, 5, 1, 5], [0, 0, 1, 1, 1], [0, 0, 1, 0, 0], [0, 0, 1, 1, 1]) \<and>
   (\<exists>epa segs.
      assembled left_padded_config example_tokenizer 5
        \<lparr>guid = ''g'', text_a = ''a'', text_b = None, label = Some ''1''\<rparr>
      = Inr ([''[CLS]'', ''a'', ''[SEP]''], epa, segs) \<and>
      [0, 0, 5, 1, 5] = replicate 2 0 @ [5, 1, 5] \<and>
      [0, 0, 1, 1, 1] = replicate 2 0 @ replicate 3 (1::int) \<and>
      [0, 0, 1, 0, 0] = replicate 2 0 @ segs \<and>
      [0, 0, 1, 1, 1] = replicate 2 0 @ epa) \<and>
   padded default_config example_tokenizer 5
     \<lparr>guid = ''g'', text_a = ''a'', text_b = None, label = Some ''1''\<rparr>
   = Inr ([''[CLS]'', ''a'', ''[SEP]''],
          [5, 1, 5, 0, 0], [1, 1, 1, 0, 0], [1, 0, 0, 0, 0], [1, 1, 1, 0, 0]) \<and>
   (\<exists>epa segs.
      assembled default_config example_tokenizer 5
        \<lparr>guid = ''g'', text_a = ''a'', text_b = None, label = Some ''1''\<rparr>
      = Inr ([''[CLS]'', ''a'', ''[SEP]''], epa, segs) \<and>
      [5, 1, 5, 0, 0] = [5, 1, 5] @ replicate 2 0 \<and>
      [1, 1, 1, 0, 0] = replicate 3 1 @ replicate 2 (0::int) \<and>
      [1, 0, 0, 0, 0] = segs @ replicate 2 0 \<and>
      [1, 1, 1, 0, 0] = epa @ replicate 2 0)"
proof -
  let ?ex = "\<lparr>guid = ''g'', text_a = ''a'', text_b = None, label = Some ''1''\<rparr>"
  let ?tokens = "[''[CLS]'', ''a'', ''[SEP]'']"
  have ids: "convert_tokens_to_ids example_tokenizer ?tokens = [5, 1, 5]"
    by (simp add: example_tokenizer_def whitespace_tokenizer_def length_ids_def)
  have left: "padded left_padded_config example_tokenizer 5 ?ex
      = Inr (?tokens, [0, 0, 5, 1, 5], [0, 0, 1, 1, 1], [0, 0, 1, 0, 0], [0, 0, 1, 1, 1])"
    by (simp add: conv_defs)
  have right: "padded default_config example_tokenizer 5 ?ex
      = Inr (?tokens, [5, 1, 5, 0, 0], [1, 1, 1, 0, 0], [1, 0, 0, 0, 0], [1, 1, 1, 0, 0])"
    by (simp add: conv_defs)
  have cl: "pad_on_left left_padded_config" "mask_padding_with_zero left_padded_config"
    "pad_token left_padded_config = 0" "pad_token_segment_id left_padded_config = 0"
    by (simp_all add: left_padded_config_def default_config_def)
  have cr: "\<not> pad_on_left (default_config :: unit option config)"
    "mask_padding_with_zero (default_config :: unit option config)"
    "pad_token (default_config :: unit option config) = 0"
    "pad_token_segment_id (default_config :: unit option config) = 0"
    by (simp_all add: default_config_def)
  from padding_contiguous [OF left, where float_of = no_float
      and output_mode = "''classification''" and label_map = "label_map_of [Some ''0'', Some ''1'']"]
  have l: "\<exists>epa segs.
      assembled left_padded_config example_tokenizer 5 ?ex = Inr (?tokens, epa, segs) \<and>
      [0, 0, 5, 1, 5] = replicate 2 0 @ [5, 1, 5] \<and>
      [0, 0, 1, 1, 1] = replicate 2 0 @ replicate 3 (1::int) \<and>
      [0, 0, 1, 0, 0] = replicate 2 0 @ segs \<and>
      [0, 0, 1, 1, 1] = replicate 2 0 @ epa"
    by (simp add: Let_def ids cl replicate_numeral)
  from padding_contiguous [OF right, where float_of = no_float
      and output_mode = "''classification''" and label_map = "label_map_of [Some ''0'', Some ''1'']"]
  have r: "\<exists>epa segs.
      assembled default_config example_tokenizer 5 ?ex = Inr (?tokens, epa, segs) \<and>
      [5, 1, 5, 0, 0] = [5, 1, 5] @ replicate 2 0 \<and>
      [1, 1, 1, 0, 0] = replicate 3 1 @ replicate 2 (0::int) \<and>
      [1, 0, 0, 0, 0] = segs @ replicate 2 0 \<and>
      [1, 1, 1, 0, 0] = epa @ replicate 2 0"
    by (simp add: Let_def ids cr replicate_numeral)
  from left l right r show ?thesis by (intro conjI)
qed

subsection \<open>The class token\<close>

lemma assemble_segs:
  assumes "assemble cfg tokens_a tokens_b epa = (tokens, epa', segs)"
  shows "segs \<noteq> [] \<and> length segs = length tokens \<and>
         (cls_token_at_end cfg \<longrightarrow> last segs = cls_token_segment_id cfg) \<and>
         (\<not> cls_token_at_end cfg \<longrightarrow> hd segs = cls_token_segment_id cfg)"
  using assms unfolding assemble_def Let_def times_def
  by (cases tokens_b) (auto split: if_splits)

lemma assembled_segs:
  assumes "assembled cfg tokenizer max_seq_length example = Inr (tokens, epa, segs)"
  shows "segs \<noteq> [] \<and> length segs = length tokens \<and>
         (cls_token_at_end cfg \<longrightarrow> last segs = cls_token_segment_id cfg) \<and>
         (\<not> cls_token_at_end cfg \<longrightarrow> hd segs = cls_token_segment_id cfg)"
proof -
  from assms obtain ta tb e where "assemble cfg ta tb e = (tokens, epa, segs)"
    unfolding assembled_def by (auto split: sum.splits prod.splits)
  then show ?thesis by (rule assemble_segs)
qed


text \<open>
  Claim C6, as the source has it. With \<open>cls_token_at_end\<close> false the first position
  that is not padding carries \<open>cls_token_segment_id\<close>: position 0 when
  \<open>pad_on_left\<close> is false, the position after the padding when it is true. With
  \<open>cls_token_at_end\<close> true the last position that is not padding carries it.
\<close>

theorem class_token_segment:
  "convert_example cfg tokenizer float_of output_mode label_map max_seq_length example
     = Inr (f, tokens) \<Longrightarrow>
   \<exists>segs. segs \<noteq> [] \<and> length segs = length tokens \<and>
     (let p = nat (max_seq_length - int (length (convert_tokens_to_ids tokenizer tokens)));
          first = (if pad_on_left cfg then p else 0)
      in segment_ids f =
           (if pad_on_left cfg then replicate p (pad_token_segment_id cfg) @ segs
            else segs @ replicate p (pad_token_segment_id cfg)) \<and>
         (\<not> cls_token_at_end cfg \<longrightarrow> segment_ids f ! first = cls_token_segment_id cfg) \<and>
         (cls_token_at_end cfg \<longrightarrow>
            segment_ids f ! (first + length tokens - 1) = cls_token_segment_id cfg))"
proof -
  assume c: "convert_example cfg tokenizer float_of output_mode label_map max_seq_length example
     = Inr (f, tokens)"
  define p where "p = nat (max_seq_length - int (length (convert_tokens_to_ids tokenizer tokens)))"
  from convert_example_padded[OF c] obtain epa segs where
    a: "assembled cfg tokenizer max_seq_length example = Inr (tokens, epa, segs)" and
    pd: "(input_ids f, input_mask f, segment_ids f, epa_vec f) =
             pad cfg max_seq_length (convert_tokens_to_ids tokenizer tokens) segs epa"
    by (elim exE conjE)
  from assembled_segs[OF a] have ne: "segs \<noteq> []" and len: "length segs = length tokens"
    and at_end: "cls_token_at_end cfg \<Longrightarrow> last segs = cls_token_segment_id cfg"
    and at_start: "\<not> cls_token_at_end cfg \<Longrightarrow> hd segs = cls_token_segment_id cfg"
    by simp_all
  from ne have pos: "0 < length segs" by simp
  have key: "segment_ids f =
           (if pad_on_left cfg then replicate p (pad_token_segment_id cfg) @ segs
            else segs @ replicate p (pad_token_segment_id cfg)) \<and>
         (\<not> cls_token_at_end cfg \<longrightarrow>
            segment_ids f ! (if pad_on_left cfg then p else 0) = cls_token_segment_id cfg) \<and>
         (cls_token_at_end cfg \<longrightarrow>
            segment_ids f ! ((if pad_on_left cfg then p else 0) + length tokens - 1)
              = cls_token_segment_id cfg)"
  proof (cases "pad_on_left cfg")
    case True
    from pd have s: "segment_ids f = replicate p (pad_token_segment_id cfg) @ segs"
      by (simp add: pad_left[OF True] p_def)
    have "(replicate p (pad_token_segment_id cfg) @ segs) ! p = hd segs"
      using ne by (simp add: nth_append hd_conv_nth)
    moreover have "(replicate p (pad_token_segment_id cfg) @ segs) ! (p + length segs - 1)
        = last segs"
    proof -
      have "p + length segs - 1 = p + (length segs - 1)" using pos by arith
      then show ?thesis using ne by (simp add: nth_append last_conv_nth)
    qed
    ultimately show ?thesis using True s at_end at_start len by simp
  next
    case False
    from pd have s: "segment_ids f = segs @ replicate p (pad_token_segment_id cfg)"
      by (simp add: pad_right[OF False] p_def)
    have "(segs @ replicate p (pad_token_segment_id cfg)) ! 0 = hd segs"
      using ne by (simp add: nth_append hd_conv_nth)
    moreover have "(segs @ replicate p (pad_token_segment_id cfg)) ! (length segs - 1)
        = last segs"
      using ne pos by (simp add: nth_append last_conv_nth)
    ultimately show ?thesis using False s at_end at_start len by simp
  qed
  have body: "let p = nat (max_seq_length - int (length (convert_tokens_to_ids tokenizer tokens)));
          first = (if pad_on_left cfg then p else 0)
      in segment_ids f =
           (if pad_on_left cfg then replicate p (pad_token_segment_id cfg) @ segs
            else segs @ replicate p (pad_token_segment_id cfg)) \<and>
         (\<not> cls_token_at_end cfg \<longrightarrow> segment_ids f ! first = cls_token_segment_id cfg) \<and>
         (cls_token_at_end cfg \<longrightarrow>
            segment_ids f ! (first + length tokens - 1) = cls_token_segment_id cfg)"
    unfolding Let_def p_def[symmetric] by (rule key)
  show ?thesis
  proof (intro exI[of _ segs] conjI)
    show "segs \<noteq> []" by (rule ne)
    show "length segs = length tokens" by (rule len)
    show "let p = nat (max_seq_length - int (length (convert_tokens_to_ids tokenizer tokens)));
          first = (if pad_on_left cfg then p else 0)
      in segment_ids f =
           (if pad_on_left cfg then replicate p (pad_token_segment_id cfg) @ segs
            else segs @ replicate p (pad_token_segment_id cfg)) \<and>
         (\<not> cls_token_at_end cfg \<longrightarrow> segment_ids f ! first = cls_token_segment_id cfg) \<and>
         (cls_token_at_end cfg \<longrightarrow>
            segment_ids f ! (first + length tokens - 1) = cls_token_segment_id cfg)"
      by (rule body)
  qed
qed

theorem class_token_segment_witness:
  "convert_example left_padded_config example_tokenizer no_float ''classification''
     (label_map_of [Some ''0'', Some ''1'']) 5
     \<lparr>guid = ''g'', text_a = ''a'', text_b = None, label = Some ''1''\<rparr>
   = Inr (\<lparr>input_ids = [0, 0, 5, 1, 5], input_mask = [0, 0, 1, 1, 1],
           segment_ids = [0, 0, 1, 0, 0], label_id = IntLabel 1,
           epa_vec = [0, 0, 1, 1, 1]\<rparr>, [''[CLS]'', ''a'', ''[SEP]'']) \<and>
   [0, 0, 1, 0, 0] ! 2 = cls_token_segment_id left_padded_config"
proof -
  let ?ex = "\<lparr>guid = ''g'', text_a = ''a'', text_b = None, label = Some ''1''\<rparr>"
  let ?f = "\<lparr>input_ids = [0, 0, 5, 1, 5], input_mask = [0, 0, 1, 1, 1],
           segment_ids = [0, 0, 1, 0, 0], label_id = IntLabel 1,
           epa_vec = [0, 0, 1, 1, 1 :: real]\<rparr>"
  have ev: "convert_example left_padded_config example_tokenizer no_float ''classification''
     (label_map_of [Some ''0'', Some ''1'']) 5 ?ex = Inr (?f, [''[CLS]'', ''a'', ''[SEP]''])"
    by (simp add: conv_defs left_padded_config_def)
  have "\<not> cls_token_at_end left_padded_config" and "pad_on_left left_padded_config"
    by (simp_all add: left_padded_config_def default_config_def)
  with class_token_segment [OF ev]
  have "segment_ids ?f !
          nat (5 - int (length (convert_tokens_to_ids example_tokenizer [''[CLS]'', ''a'', ''[SEP]''])))
        = cls_token_segment_id left_padded_config"
    by (auto simp: Let_def)
  then have "[0, 0, 1, 0, 0] ! 2 = cls_token_segment_id left_padded_config"
    by (simp add: conv_defs)
  with ev show ?thesis by simp
qed

theorem class_token_first_counterexample:
  "convert_example left_padded_config example_tokenizer no_float ''classification''
     (label_map_of [Some ''0'', Some ''1'']) 5
     \<lparr>guid = ''g'', text_a = ''a'', text_b = None, label = Some ''1''\<rparr>
   = Inr (\<lparr>input_ids = [0, 0, 5, 1, 5], input_mask = [0, 0, 1, 1, 1],
           segment_ids = [0, 0, 1, 0, 0], label_id = IntLabel 1,
           epa_vec = [0, 0, 1, 1, 1]\<rparr>, [''[CLS]'', ''a'', ''[SEP]'']) \<and>
   \<not> cls_token_at_end left_padded_config \<and>
   segment_ids \<lparr>input_ids = [0, 0, 5, 1, 5], input_mask = [0, 0, 1, 1, 1],
           segment_ids = [0, 0, 1, 0, 0], label_id = IntLabel 1,
           epa_vec = [0, 0, 1, 1, 1 :: real]\<rparr> ! 0 \<noteq> cls_token_segment_id left_padded_config"
  by (simp add: conv_defs left_padded_config_def)

subsection \<open>The loop over the examples\<close>

lemma convert_loop_Cons_Inr:
  assumes "convert_loop cfg tokenizer float_of classify output_mode label_map max_seq_length n ex_index
             (example # rest) features logged = (logged', Inr features')"
  shows "\<exists>f tokens logged2.
           convert_example cfg tokenizer float_of output_mode label_map max_seq_length example
             = Inr (f, tokens) \<and>
           convert_loop cfg tokenizer float_of classify output_mode label_map max_seq_length n
             (Suc ex_index) rest (features @ [f]) logged2 = (logged', Inr features')"
proof (cases "convert_example cfg tokenizer float_of output_mode label_map max_seq_length example")
  case (Inl e)
  with assms show ?thesis by (simp add: Let_def)
next
  case (Inr r)
  obtain f tokens where r: "r = (f, tokens)" by (cases r)
  from assms Inr r show ?thesis
    by (intro exI[of _ f] exI[of _ tokens])
       (auto simp: Let_def split: if_splits option.splits)
qed

lemma convert_loop_Inr:
  "convert_loop cfg tokenizer float_of classify output_mode label_map max_seq_length n ex_index
     examples features logged = (logged', Inr features') \<Longrightarrow>
   \<exists>new. features' = features @ new \<and> length new = length examples \<and>
     (\<forall>i<length examples. \<exists>tokens.
        convert_example cfg tokenizer float_of output_mode label_map max_seq_length (examples ! i)
          = Inr (new ! i, tokens))"
proof (induction examples arbitrary: ex_index features logged)
  case Nil
  then show ?case by simp
next
  case (Cons example rest)
  from convert_loop_Cons_Inr[OF Cons.prems] obtain f tokens logged2 where
    ce: "convert_example cfg tokenizer float_of output_mode label_map max_seq_length example
           = Inr (f, tokens)" and
    rec: "convert_loop cfg tokenizer float_of classify output_mode label_map max_seq_length n
             (Suc ex_index) rest (features @ [f]) logged2 = (logged', Inr features')"
    by (elim exE conjE)
  from Cons.IH[OF rec] obtain new where
    new: "features' = (features @ [f]) @ new" "length new = length rest" and
    each: "\<forall>i<length rest. \<exists>tokens.
        convert_example cfg tokenizer float_of output_mode label_map max_seq_length (rest ! i)
          = Inr (new ! i, tokens)"
    by (elim exE conjE)
  have "\<forall>i<length (example # rest). \<exists>tokens.
        convert_example cfg tokenizer float_of output_mode label_map max_seq_length
          ((example # rest) ! i) = Inr ((f # new) ! i, tokens)"
  proof (intro allI impI)
    fix i assume i: "i < length (example # rest)"
    show "\<exists>tokens. convert_example cfg tokenizer float_of output_mode label_map max_seq_length
          ((example # rest) ! i) = Inr ((f # new) ! i, tokens)"
    proof (cases i)
      case 0
      with ce show ?thesis by simp
    next
      case (Suc j)
      with i have "j < length rest" by simp
      with each Suc show ?thesis by simp
    qed
  qed
  with new show ?case by (intro exI[of _ "f # new"]) simp
qed

text \<open>
  Within the first five examples, a label value that \<open>%d\<close> cannot format ends the
  call with the exception of the formatting, after the other messages of the example.
\<close>

lemma convert_loop_format_error:
  assumes "convert_example cfg tokenizer float_of output_mode label_map max_seq_length example
             = Inr (f, tokens)"
    and "format_d classify (label_id f) = Some e"
    and "ex_index < 5"
  shows "convert_loop cfg tokenizer float_of classify output_mode label_map max_seq_length n
           ex_index (example # rest) features logged =
         ((if ex_index mod 10000 = 0 then logged @ [LogWriting ex_index n] else logged) @
            [LogExample, LogGuid (guid example), LogTokens tokens, LogInputIds (input_ids f),
             LogInputMask (input_mask f), LogSegmentIds (segment_ids f)],
          Inl e)"
  using assms by (simp add: Let_def)

text \<open>
  Claim C9. When \<open>convert_examples_to_features\<close> returns normally, it returns as many
  features as there are examples, and the feature at position \<open>i\<close> is the conversion of
  the example at position \<open>i\<close>.
\<close>

theorem features_follow_examples:
  "convert_examples_to_features examples label_list max_seq_length tokenizer output_mode cfg
     float_of classify = (logged, Inr features) \<Longrightarrow>
   length features = length examples \<and>
   (\<forall>i<length examples. \<exists>tokens.
      convert_example cfg tokenizer float_of output_mode (label_map_of label_list)
        max_seq_length (examples ! i) = Inr (features ! i, tokens))"
proof -
  assume "convert_examples_to_features examples label_list max_seq_length tokenizer output_mode
     cfg float_of classify = (logged, Inr features)"
  then have "convert_loop cfg tokenizer float_of classify output_mode (label_map_of label_list)
      max_seq_length (length examples) 0 examples [] [] = (logged, Inr features)"
    by (simp add: convert_examples_to_features_def)
  from convert_loop_Inr[OF this] obtain new where
    "features = [] @ new" "length new = length examples"
    "\<forall>i<length examples. \<exists>tokens.
        convert_example cfg tokenizer float_of output_mode (label_map_of label_list)
          max_seq_length (examples ! i) = Inr (new ! i, tokens)"
    by (elim exE conjE)
  then show ?thesis by simp
qed

theorem features_follow_examples_witness:
  "convert_examples_to_features
     [\<lparr>guid = ''dev-1'', text_a = ''a b c'', text_b = None, label = Some ''1''\<rparr>,
      \<lparr>guid = ''dev-2'', text_a = ''d'', text_b = None, label = Some ''0''\<rparr>]
     [Some ''0'', Some ''1''] 6 example_tokenizer ''classification'' default_config no_float finite_real
   = ([LogWriting 0 2,
       LogExample, LogGuid ''dev-1'', LogTokens [''[CLS]'', ''a'', ''b'', ''c'', ''[SEP]''],
       LogInputIds [5, 1, 1, 1, 5, 0], LogInputMask [1, 1, 1, 1, 1, 0],
       LogSegmentIds [1, 0, 0, 0, 0, 0], LogLabel (Some ''1'') (IntLabel 1),
       LogExample, LogGuid ''dev-2'', LogTokens [''[CLS]'', ''d'', ''[SEP]''],
       LogInputIds [5, 1, 5, 0, 0, 0], LogInputMask [1, 1, 1, 0, 0, 0],
       LogSegmentIds [1, 0, 0, 0, 0, 0], LogLabel (Some ''0'') (IntLabel 0)],
      Inr [\<lparr>input_ids = [5, 1, 1, 1, 5, 0], input_mask = [1, 1, 1, 1, 1, 0],
            segment_ids = [1, 0, 0, 0, 0, 0], label_id = IntLabel 1,
            epa_vec = [1, 1, 1, 1, 1, 0]\<rparr>,
           \<lparr>input_ids = [5, 1, 5, 0, 0, 0], input_mask = [1, 1, 1, 0, 0, 0],
            segment_ids = [1, 0, 0, 0, 0, 0], label_id = IntLabel 0,
            epa_vec = [1, 1, 1, 0, 0, 0]\<rparr>]) \<and>
   (\<exists>tokens. convert_example default_config example_tokenizer no_float ''classification''
      (label_map_of [Some ''0'', Some ''1'']) 6
      \<lparr>guid = ''dev-2'', text_a = ''d'', text_b = None, label = Some ''0''\<rparr>
    = Inr (\<lparr>input_ids = [5, 1, 5, 0, 0, 0], input_mask = [1, 1, 1, 0, 0, 0],
            segment_ids = [1, 0, 0, 0, 0, 0], label_id = IntLabel 0,
            epa_vec = [1, 1, 1, 0, 0, 0]\<rparr>, tokens))"
proof -
  let ?e1 = "\<lparr>guid = ''dev-1'', text_a = ''a b c'', text_b = None, label = Some ''1''\<rparr>"
  let ?e2 = "\<lparr>guid = ''dev-2'', text_a = ''d'', text_b = None, label = Some ''0''\<rparr>"
  let ?f1 = "\<lparr>input_ids = [5, 1, 1, 1, 5, 0], input_mask = [1, 1, 1, 1, 1, 0],
            segment_ids = [1, 0, 0, 0, 0, 0], label_id = IntLabel 1,
            epa_vec = [1, 1, 1, 1, 1, 0 :: real]\<rparr>"
  let ?f2 = "\<lparr>input_ids = [5, 1, 5, 0, 0, 0], input_mask = [1, 1, 1, 0, 0, 0],
            segment_ids = [1, 0, 0, 0, 0, 0], label_id = IntLabel 0,
            epa_vec = [1, 1, 1, 0, 0, 0 :: real]\<rparr>"
  let ?log = "[LogWriting 0 2,
       LogExample, LogGuid ''dev-1'', LogTokens [''[CLS]'', ''a'', ''b'', ''c'', ''[SEP]''],
       LogInputIds [5, 1, 1, 1, 5, 0], LogInputMask [1, 1, 1, 1, 1, 0],
       LogSegmentIds [1, 0, 0, 0, 0, 0], LogLabel (Some ''1'') (IntLabel 1),
       LogExample, LogGuid ''dev-2'', LogTokens [''[CLS]'', ''d'', ''[SEP]''],
       LogInputIds [5, 1, 5, 0, 0, 0], LogInputMask [1, 1, 1, 0, 0, 0],
       LogSegmentIds [1, 0, 0, 0, 0, 0], LogLabel (Some ''0'') (IntLabel (0::nat) :: real label_value)]"
  have ev: "convert_examples_to_features [?e1, ?e2] [Some ''0'', Some ''1''] 6
      example_tokenizer ''classification'' default_config no_float finite_real = (?log, Inr [?f1, ?f2])"
    by (simp add: conv_defs)
  from features_follow_examples [OF ev]
  have all: "\<forall>i<length [?e1, ?e2]. \<exists>tokens.
      convert_example default_config example_tokenizer no_float ''classification''
        (label_map_of [Some ''0'', Some ''1'']) 6 ([?e1, ?e2] ! i) = Inr ([?f1, ?f2] ! i, tokens)"
    by (rule conjunct2)
  have "\<exists>tokens. convert_example default_config example_tokenizer no_float ''classification''
        (label_map_of [Some ''0'', Some ''1'']) 6 ([?e1, ?e2] ! 1) = Inr ([?f1, ?f2] ! 1, tokens)"
    by (rule all[rule_format]) simp
  then have "\<exists>tokens. convert_example default_config example_tokenizer no_float
      ''classification'' (label_map_of [Some ''0'', Some ''1'']) 6 ?e2 = Inr (?f2, tokens)"
    by simp
  with ev show ?thesis by (intro conjI)
qed

subsection \<open>The length check\<close>

lemma assemble_lengths:
  assumes "assemble cfg tokens_a tokens_b epa = (tokens, epa', segs)"
  shows "length epa' = length epa + (if sep_token_extra cfg then 3 else 2) \<and>
         length tokens = length tokens_a + (if sep_token_extra cfg then 3 else 2) +
           (case tokens_b of None \<Rightarrow> 0 | Some b \<Rightarrow> if b = [] then 0 else length b + 1) \<and>
         length segs = length tokens"
  using assms unfolding assemble_def Let_def times_def
  by (cases tokens_b) (auto split: if_splits)

lemma pad_lengths:
  assumes "pad cfg max_seq_length ids segs epa = (ids', msk', segs', epa')"
  shows "length ids' = length ids + nat (max_seq_length - int (length ids)) \<and>
         length msk' = length ids + nat (max_seq_length - int (length ids)) \<and>
         length segs' = length segs + nat (max_seq_length - int (length ids)) \<and>
         length epa' = length epa + nat (max_seq_length - int (length ids))"
proof (cases "pad_on_left cfg")
  case True
  from assms show ?thesis unfolding pad_left[OF True] by auto
next
  case False
  from assms show ?thesis unfolding pad_right[OF False] by auto
qed

lemma pair_check_fails:
  assumes b: "text_b example = Some b" "b \<noteq> []" "tokenize tokenizer b \<noteq> []"
    and a: "tokenize_epa tokenizer (text_a example) (epa_infos cfg) = (ta, epa)"
    and aligned: "length epa = length ta"
    and fits: "int (length ta) + int (length (tokenize tokenizer b))
                 \<le> max_seq_length - (if sep_token_extra cfg then 4 else 3)"
  shows "convert_example cfg tokenizer float_of output_mode label_map max_seq_length example
           = Inl AssertionError"
proof -
  let ?tb = "tokenize tokenizer b"
  have "truncate_seq_pair ta ?tb (max_seq_length - (if sep_token_extra cfg then 4 else 3))
          = Inr (ta, ?tb)"
    using fits by (subst truncate_seq_pair.simps) simp
  then have tr: "truncate_tokens cfg tokenizer max_seq_length example = Inr (ta, Some ?tb, epa)"
    using a b by (simp add: truncate_tokens_def Let_def)
  obtain tokens epa2 segs where as: "assemble cfg ta (Some ?tb) epa = (tokens, epa2, segs)"
    by (cases "assemble cfg ta (Some ?tb) epa") auto
  obtain ids' msk' segs' epa' where pd:
    "pad cfg max_seq_length (convert_tokens_to_ids tokenizer tokens) segs epa2
       = (ids', msk', segs', epa')"
    by (cases "pad cfg max_seq_length (convert_tokens_to_ids tokenizer tokens) segs epa2") auto
  from assemble_lengths[OF as] b(3) aligned
  have "length segs = length epa2 + length ?tb + 1" by simp
  with pad_lengths[OF pd] have "length segs' \<noteq> length epa'" by simp
  then have "\<not> lengths_ok max_seq_length (ids', msk', segs', epa')"
    by (auto simp: lengths_ok_def)
  with tr as pd show ?thesis
    by (simp add: convert_example_def padded_def assembled_def)
qed

lemma single_check_passes:
  assumes b: "text_b example = None \<or> text_b example = Some []"
    and a: "tokenize_epa tokenizer (text_a example) (epa_infos cfg) = (ta, epa)"
    and aligned: "length epa = length ta"
    and ids: "\<forall>ts. length (convert_tokens_to_ids tokenizer ts) = length ts"
    and budget: "(if sep_token_extra cfg then 3 else 2) \<le> max_seq_length"
  shows "\<exists>tokens p. padded cfg tokenizer max_seq_length example = Inr (tokens, p) \<and>
           lengths_ok max_seq_length p"
proof -
  have "\<exists>ta' epa0. truncate_single cfg max_seq_length ta epa = (ta', None, epa0)"
    by (cases "int (length ta) > max_seq_length - (if sep_token_extra cfg then 3 else 2)")
       (simp_all add: truncate_single_def Let_def)
  then obtain ta' epa0 where ts: "truncate_single cfg max_seq_length ta epa = (ta', None, epa0)"
    by (elim exE)
  have tr: "truncate_tokens cfg tokenizer max_seq_length example = Inr (ta', None, epa0)"
    using a b ts by (auto simp: truncate_tokens_def)
  from ts aligned budget
  have len: "length epa0 = length ta'"
    and bound: "int (length ta') + (if sep_token_extra cfg then 3 else 2) \<le> max_seq_length"
    by (auto simp: truncate_single_def Let_def slice_to_def split: if_splits)
  obtain tokens epa2 segs where as: "assemble cfg ta' None epa0 = (tokens, epa2, segs)"
    by (cases "assemble cfg ta' None epa0") auto
  obtain ids' msk' segs' epa' where pd:
    "pad cfg max_seq_length (convert_tokens_to_ids tokenizer tokens) segs epa2
       = (ids', msk', segs', epa')"
    by (cases "pad cfg max_seq_length (convert_tokens_to_ids tokenizer tokens) segs epa2") auto
  from assemble_lengths[OF as] len
  have l: "length tokens = length ta' + (if sep_token_extra cfg then 3 else 2)"
    "length segs = length tokens" "length epa2 = length tokens"
    by simp_all
  from l(1) bound have "int (length tokens) \<le> max_seq_length" by (simp split: if_splits)
  with pad_lengths[OF pd] l ids
  have "lengths_ok max_seq_length (ids', msk', segs', epa')"
    by (simp add: lengths_ok_def)
  moreover have "padded cfg tokenizer max_seq_length example
      = Inr (tokens, ids', msk', segs', epa')"
    using tr as pd by (simp add: padded_def assembled_def)
  ultimately show ?thesis by (intro exI conjI)
qed


text \<open>
  Claim C1, evaluated on the source. Let the tokenizer return one auxiliary weight per
  token of \<open>text_a\<close>. Without \<open>text_b\<close>, with ids of the length of the tokens and
  \<open>max_seq_length\<close> at least the special-token budget, the padded sequences pass the
  four \<open>assert\<close> statements. With a \<open>text_b\<close> whose tokens are not empty and
  fit the budget together with those of \<open>text_a\<close>, the check fires: the tokens of
  \<open>text_b\<close> and their separator get segment ids and no auxiliary weights, so
  \<open>segment_ids\<close> and \<open>epa_vec\<close> differ in length.
\<close>

theorem length_check:
  "tokenize_epa tokenizer (text_a example) (epa_infos cfg) = (ta, epa) \<Longrightarrow>
   length epa = length ta \<Longrightarrow>
   ((text_b example = None \<or> text_b example = Some []) \<and>
    (\<forall>ts. length (convert_tokens_to_ids tokenizer ts) = length ts) \<and>
    (if sep_token_extra cfg then 3 else 2) \<le> max_seq_length \<longrightarrow>
      (\<exists>tokens p. padded cfg tokenizer max_seq_length example = Inr (tokens, p) \<and>
         lengths_ok max_seq_length p)) \<and>
   (\<forall>b. text_b example = Some b \<and> b \<noteq> [] \<and> tokenize tokenizer b \<noteq> [] \<and>
        int (length ta) + int (length (tokenize tokenizer b))
          \<le> max_seq_length - (if sep_token_extra cfg then 4 else 3) \<longrightarrow>
      convert_example cfg tokenizer float_of output_mode label_map max_seq_length example
        = Inl AssertionError)"
proof (intro conjI impI allI)
  assume a: "tokenize_epa tokenizer (text_a example) (epa_infos cfg) = (ta, epa)"
    and aligned: "length epa = length ta"
  {
    assume "(text_b example = None \<or> text_b example = Some []) \<and>
      (\<forall>ts. length (convert_tokens_to_ids tokenizer ts) = length ts) \<and>
      (if sep_token_extra cfg then 3 else 2) \<le> max_seq_length"
    then show "\<exists>tokens p. padded cfg tokenizer max_seq_length example = Inr (tokens, p) \<and>
         lengths_ok max_seq_length p"
      using single_check_passes[OF _ a aligned] by simp
  }
  {
    fix b
    assume "text_b example = Some b \<and> b \<noteq> [] \<and> tokenize tokenizer b \<noteq> [] \<and>
        int (length ta) + int (length (tokenize tokenizer b))
          \<le> max_seq_length - (if sep_token_extra cfg then 4 else 3)"
    then show "convert_example cfg tokenizer float_of output_mode label_map max_seq_length
        example = Inl AssertionError"
      using pair_check_fails[OF _ _ _ a aligned] by simp
  }
qed

theorem length_check_witness:
  "convert_example default_config example_tokenizer no_float ''classification''
     (label_map_of [Some ''0'', Some ''1'']) 128
     \<lparr>guid = ''train-1'', text_a = ''x'', text_b = Some ''y'', label = Some ''0''\<rparr>
   = Inl AssertionError \<and>
   (\<exists>tokens p. padded default_config example_tokenizer 128
       \<lparr>guid = ''train-1'', text_a = ''x'', text_b = None, label = Some ''0''\<rparr>
       = Inr (tokens, p) \<and> lengths_ok 128 p)"
proof -
  let ?pair = "\<lparr>guid = ''train-1'', text_a = ''x'', text_b = Some ''y'', label = Some ''0''\<rparr>"
  let ?single = "\<lparr>guid = ''train-1'', text_a = ''x'', text_b = None, label = Some ''0''\<rparr>"
  have a1: "tokenize_epa example_tokenizer (text_a ?pair) (epa_infos default_config)
      = ([''x''], [1])"
    and a2: "tokenize_epa example_tokenizer (text_a ?single) (epa_infos default_config)
      = ([''x''], [1])"
    by (simp_all add: example_tokenizer_def whitespace_tokenizer_def unit_weight_def)
  have al: "length [1::real] = length [''x'']" by simp
  have tb: "tokenize example_tokenizer ''y'' = [''y'']"
    by (simp add: example_tokenizer_def whitespace_tokenizer_def)
  have ids: "\<forall>ts. length (convert_tokens_to_ids example_tokenizer ts) = length ts"
    by (simp add: example_tokenizer_def whitespace_tokenizer_def length_ids_def)
  have cfg: "\<not> sep_token_extra (default_config :: unit option config)"
    by (simp add: default_config_def)
  from length_check [OF a1 al, where max_seq_length = 128 and float_of = no_float
      and output_mode = "''classification''" and label_map = "label_map_of [Some ''0'', Some ''1'']"]
  have "convert_example default_config example_tokenizer no_float ''classification''
     (label_map_of [Some ''0'', Some ''1'']) 128 ?pair = Inl AssertionError"
    using tb cfg by simp
  moreover from length_check [OF a2 al, where max_seq_length = 128 and float_of = no_float
      and output_mode = "''classification''" and label_map = "label_map_of [Some ''0'', Some ''1'']"]
  have "\<exists>tokens p. padded default_config example_tokenizer 128 ?single = Inr (tokens, p) \<and>
      lengths_ok 128 p"
    using ids cfg by simp
  ultimately show ?thesis by (intro conjI)
qed

text \<open>
  Claim C2, evaluated on the source. The end-to-end scenario (\<open>text_a = "a b c"\<close>,
  \<open>text_b = "d e"\<close>, label \<open>"1"\<close>, \<open>max_seq_length = 10\<close>, default configuration,
  classification over \<open>["0", "1"]\<close>, a whitespace tokenizer with any weights and any
  vocabulary) logs the progress message of example 0 and ends in the assertion error
  of the length check; no feature is produced.
\<close>

theorem end_to_end_scenario:
  "convert_examples_to_features
     [\<lparr>guid = g, text_a = ''a b c'', text_b = Some ''d e'', label = Some ''1''\<rparr>]
     [Some ''0'', Some ''1''] 10 (whitespace_tokenizer w ids) ''classification''
     (default_config :: 'e option config) float_of classify
   = ([LogWriting 0 1], Inl AssertionError)"
proof -
  let ?ex = "\<lparr>guid = g, text_a = ''a b c'', text_b = Some ''d e'', label = Some ''1''\<rparr>"
  have "convert_example (default_config :: 'e option config) (whitespace_tokenizer w ids)
      float_of ''classification'' (label_map_of [Some ''0'', Some ''1'']) 10 ?ex
      = Inl AssertionError"
    by (rule pair_check_fails [where b = "''d e''" and ta = "[''a'', ''b'', ''c'']"
          and epa = "[w ''a'', w ''b'', w ''c'']"])
       (simp_all add: whitespace_tokenizer_def default_config_def)
  then show ?thesis
    by (simp add: convert_examples_to_features_def Let_def)
qed

subsection \<open>The check of the output mode\<close>

text \<open>
  Claim C4, as the source has it. The output mode is looked at in the loop, when the
  label of an example is resolved. With an output mode that is neither
  \<open>classification\<close> nor \<open>regression\<close>, an empty sequence of examples is converted to
  the empty list without error; a sequence whose first example passes the length check
  fails with \<open>KeyError(output_mode)\<close> after the progress message of example 0 has
  been logged and that example has been tokenized, truncated and padded.
\<close>

theorem output_mode_checked_in_loop:
  "output_mode \<noteq> ''classification'' \<Longrightarrow> output_mode \<noteq> ''regression'' \<Longrightarrow>
   convert_examples_to_features [] label_list max_seq_length tokenizer output_mode cfg float_of classify
     = ([], Inr []) \<and>
   (padded cfg tokenizer max_seq_length example = Inr (tokens, p) \<and>
    lengths_ok max_seq_length p \<longrightarrow>
      convert_examples_to_features (example # rest) label_list max_seq_length tokenizer
        output_mode cfg float_of classify
      = ([LogWriting 0 (Suc (length rest))], Inl (KeyError (Some output_mode))))"
proof (intro conjI impI)
  assume m: "output_mode \<noteq> ''classification''" "output_mode \<noteq> ''regression''"
  show "convert_examples_to_features [] label_list max_seq_length tokenizer output_mode cfg
      float_of classify = ([], Inr [])"
    by (simp add: convert_examples_to_features_def)
  assume "padded cfg tokenizer max_seq_length example = Inr (tokens, p) \<and>
    lengths_ok max_seq_length p"
  then have "convert_example cfg tokenizer float_of output_mode (label_map_of label_list)
      max_seq_length example = Inl (KeyError (Some output_mode))"
    using m by (simp add: convert_example_checked resolve_label_def)
  then show "convert_examples_to_features (example # rest) label_list max_seq_length tokenizer
        output_mode cfg float_of classify
      = ([LogWriting 0 (Suc (length rest))], Inl (KeyError (Some output_mode)))"
    by (simp add: convert_examples_to_features_def Let_def)
qed

theorem output_mode_checked_in_loop_witness:
  "''ranking'' \<noteq> ''classification'' \<and> ''ranking'' \<noteq> ''regression'' \<and>
   padded default_config example_tokenizer 7
     \<lparr>guid = ''g'', text_a = ''a b c'', text_b = None, label = Some ''1''\<rparr>
   = Inr ([''[CLS]'', ''a'', ''b'', ''c'', ''[SEP]''],
          [5, 1, 1, 1, 5, 0, 0], [1, 1, 1, 1, 1, 0, 0], [1, 0, 0, 0, 0, 0, 0],
          [1, 1, 1, 1, 1, 0, 0]) \<and>
   convert_examples_to_features
     [\<lparr>guid = ''g'', text_a = ''a b c'', text_b = None, label = Some ''1''\<rparr>]
     [Some ''0'', Some ''1''] 7 example_tokenizer ''ranking'' default_config no_float finite_real
   = ([LogWriting 0 1], Inl (KeyError (Some ''ranking'')))"
proof -
  let ?ex = "\<lparr>guid = ''g'', text_a = ''a b c'', text_b = None, label = Some ''1''\<rparr>"
  let ?p = "([5, 1, 1, 1, 5, 0, 0], [1, 1, 1, 1, 1, 0, 0], [1, 0, 0, 0, 0, 0, 0],
             [1, 1, 1, 1, 1, 0, 0 :: real])"
  have m: "''ranking'' \<noteq> ''classification''" "''ranking'' \<noteq> ''regression''" by simp_all
  have pd: "padded default_config example_tokenizer 7 ?ex
      = Inr ([''[CLS]'', ''a'', ''b'', ''c'', ''[SEP]''], ?p)"
    by (simp add: conv_defs)
  have ok: "lengths_ok 7 ?p" by (simp add: lengths_ok_def)
  from output_mode_checked_in_loop [OF m, where cfg = default_config
      and tokenizer = example_tokenizer and max_seq_length = 7 and example = ?ex
      and tokens = "[''[CLS]'', ''a'', ''b'', ''c'', ''[SEP]'']" and p = ?p and rest = "[]"
      and label_list = "[Some ''0'', Some ''1'']" and float_of = no_float
      and classify = finite_real] pd ok
  have "convert_examples_to_features [?ex] [Some ''0'', Some ''1''] 7 example_tokenizer
      ''ranking'' default_config no_float finite_real
      = ([LogWriting 0 1], Inl (KeyError (Some ''ranking'')))"
    by simp
  with m pd show ?thesis by (intro conjI)
qed

theorem output_mode_before_examples_counterexample:
  "''ranking'' \<noteq> ''classification'' \<and> ''ranking'' \<noteq> ''regression'' \<and>
   convert_examples_to_features [] [Some ''0'', Some ''1''] 7 example_tokenizer ''ranking''
     default_config no_float finite_real
   = ([], Inr []) \<and>
   convert_examples_to_features
     [\<lparr>guid = ''g'', text_a = ''a b c'', text_b = None, label = Some ''1''\<rparr>]
     [Some ''0'', Some ''1''] 7 example_tokenizer ''ranking'' default_config no_float finite_real
   = ([LogWriting 0 1], Inl (KeyError (Some ''ranking'')))"
  by (simp add: conv_defs)

end
